theory Spec2Isabelle
  imports Complex_Main "HOL-Library.Multiset"
begin

section \<open>A model of \<open>server.js\<close>, the clip server\<close>

text \<open>
  The server is a set of HTTP handlers around three external tools (the download
  utility, the transcoder, the hosted speech and chat API), a helper that formats a time,
  and a timer that sweeps two directories. The handlers are modelled as functions of the
  request and of the answers the outside world gives; what a handler does to the outside
  world (commands run, prompts sent, files removed) is part of its result.

  Numbers are real numbers, without NaN or the infinities. ECMAScript's numbers are
  binary64 values: of the arithmetic the server does, the remainder, the floor, the
  comparisons and the difference of two integers below \<open>2^53\<close> are exact on them and
  are computed exactly here; the division rounds its result to a nearest binary64 value,
  and so does \<open>divide\<close> below; of the difference of two scores only the sign is used,
  which rounding keeps. Strings are lists of 8-bit characters.
  Each handler is modelled as it runs alone: what other requests and the timer do while
  it waits for a child process or for the network is not part of the model.
\<close>

subsection \<open>Values and errors\<close>

datatype error = TypeError | SyntaxError | ExternalError string

datatype json =
    JNull
  | JBool bool
  | JNum real
  | JStr string
  | JArr "json list"
  | JObj "(string \<times> json) list"

text \<open>
  A value that may be \<open>undefined\<close> is a \<open>json option\<close>, \<open>None\<close> being
  \<open>undefined\<close>. \<open>falsy\<close> is the test of \<open>!v\<close> and of \<open>v || d\<close>.
\<close>

fun falsy :: "json option \<Rightarrow> bool" where
  "falsy None = True"
| "falsy (Some JNull) = True"
| "falsy (Some (JBool b)) = (\<not> b)"
| "falsy (Some (JNum r)) = (r = 0)"
| "falsy (Some (JStr s)) = (s = [])"
| "falsy (Some (JArr xs)) = False"
| "falsy (Some (JObj kvs)) = False"

text \<open>
  Reading a property that is no built-in one (\<open>v.score\<close>, \<open>body.url\<close>,
  \<open>info.title\<close>): of an object, the value of the last member with that key (of two
  members with one key, \<open>JSON.parse\<close> keeps the later); of \<open>null\<close>, a TypeError;
  of any other value, \<open>undefined\<close>.
\<close>

definition field :: "(string \<times> json) list \<Rightarrow> string \<Rightarrow> json option" where
  "field kvs k = map_of (rev kvs) k"

fun member_of :: "json \<Rightarrow> string \<Rightarrow> json option" where
  "member_of (JObj kvs) k = field kvs k"
| "member_of v k = None"

definition get_prop :: "json \<Rightarrow> string \<Rightarrow> error + json option" where
  "get_prop v k = (if v = JNull then Inl TypeError else Inr (member_of v k))"

text \<open>
  The parts of the language runtime that the model does not compute are parameters, and
  every theorem holds for each choice of them: \<open>JSON.parse\<close> (\<open>None\<close> when it throws a
  SyntaxError), the conversion to a number of a string, an array or an object (\<open>None\<close>
  for NaN), the conversion to a string of an array, an object or a number that is not an
  integer, and the text of an integer from \<open>2^53\<close> on, where ECMAScript prints the
  shortest digits that give the number back (and changes to the exponent notation from
  \<open>10^21\<close> on).
\<close>

record runtime =
  JSON_parse :: "string \<Rightarrow> json option"
  number_of_other :: "json \<Rightarrow> real option"
  string_of_other :: "json \<Rightarrow> string"
  large_integer_text :: "int \<Rightarrow> string"

subsection \<open>\<open>formatTime\<close>\<close>

fun digits :: "nat \<Rightarrow> string" where
  "digits n =
     (if n < 10 then [''0123456789'' ! n]
      else digits (n div 10) @ [''0123456789'' ! (n mod 10)])"

declare digits.simps [simp del]

text \<open>
  \<open>Number.prototype.toString\<close> of an integer value: below \<open>2^53\<close> all its decimal
  digits.
\<close>

definition Number_toString :: "runtime \<Rightarrow> int \<Rightarrow> string" where
  "Number_toString rt n =
     (if \<bar>n\<bar> < 2 ^ 53
      then (if n < 0 then ''-'' @ digits (nat (- n)) else digits (nat n))
      else large_integer_text rt n)"

text \<open>\<open>String.prototype.padStart(n, p)\<close>.\<close>

definition padStart :: "nat \<Rightarrow> string \<Rightarrow> string \<Rightarrow> string" where
  "padStart n p s =
     (if n \<le> length s \<or> p = [] then s
      else take (n - length s) (concat (replicate (n - length s) p)) @ s)"

text \<open>
  \<open>x / y\<close> on numbers: binary64 division returns a binary64 value nearest to the exact
  quotient, of two equally near ones the one with the even significand. \<open>round64\<close>
  computes it: the magnitude is scaled by \<open>2^1074\<close> (the smallest positive value is
  \<open>2^-1074\<close>), \<open>e\<close> is the exponent that leaves the significand 53 bits (0 for
  the subnormal values, which have fewer), and the significand is rounded to an integer.
  A result beyond the largest value, which binary64 makes infinite, and a division by
  zero are outside the model: the server divides by 60 only.
\<close>

definition round_half_even :: "real \<Rightarrow> int" where
  "round_half_even y =
     (let n = \<lfloor>y\<rfloor>
      in if y - of_int n < 1 / 2 then n
         else if 1 / 2 < y - of_int n then n + 1
         else if even n then n else n + 1)"

fun bit_length :: "int \<Rightarrow> nat" where
  "bit_length n = (if n \<le> 0 then 0 else Suc (bit_length (n div 2)))"

declare bit_length.simps [simp del]

definition round64 :: "real \<Rightarrow> real" where
  "round64 x =
     (let a = \<bar>x\<bar> * 2 ^ 1074;
          e = bit_length \<lfloor>a\<rfloor> - 53;
          m = round_half_even (a / 2 ^ e)
      in sgn x * (of_int m * 2 ^ e / 2 ^ 1074))"

definition divide :: "real \<Rightarrow> real \<Rightarrow> real" where
  "divide x y = round64 (x / y)"

text \<open>
  \<open>x % y\<close> on numbers: the remainder of the division truncated towards zero, with the
  sign of \<open>x\<close> (\<open>y\<close> is 60 wherever the server uses it). The remainder of two
  binary64 values is one, so that binary64 computes it exactly.
\<close>

definition trunc :: "real \<Rightarrow> int" where
  "trunc r = (if r < 0 then \<lceil>r\<rceil> else \<lfloor>r\<rfloor>)"

definition js_rem :: "real \<Rightarrow> real \<Rightarrow> real" where
  "js_rem x y = x - y * of_int (trunc (x / y))"

definition Math_floor :: "real \<Rightarrow> int" where
  "Math_floor r = \<lfloor>r\<rfloor>"

definition formatTime :: "runtime \<Rightarrow> real \<Rightarrow> string" where
  "formatTime rt seconds =
     (let mins = Math_floor (divide seconds 60);
          secs = Math_floor (js_rem seconds 60)
      in Number_toString rt mins @ '':'' @ padStart 2 ''0'' (Number_toString rt secs))"

text \<open>
  What the specification says of the seconds: the remainder of the seconds modulo 60,
  floored, written with two digits.
\<close>

definition two_digits :: "nat \<Rightarrow> string" where
  "two_digits n = [''0123456789'' ! (n div 10), ''0123456789'' ! (n mod 10)]"

definition seconds_part :: "real \<Rightarrow> nat" where
  "seconds_part s = nat \<lfloor>s - 60 * of_int \<lfloor>s / 60\<rfloor>\<rfloor>"

text \<open>
  The binary64 values: the multiples \<open>m * 2^e\<close> of \<open>2^-1074\<close> with \<open>|m| < 2^53\<close>,
  up to the largest, \<open>(2^53 - 1) * 2^971\<close>; and what it is for one of them to be
  nearest to a real number.
\<close>

definition is_binary64 :: "real \<Rightarrow> bool" where
  "is_binary64 x =
     (\<exists>m :: int. \<exists>e :: nat. \<bar>m\<bar> < 2 ^ 53 \<and> e \<le> 2045 \<and> x = of_int m * 2 ^ e / 2 ^ 1074)"

definition nearest64 :: "real \<Rightarrow> real \<Rightarrow> bool" where
  "nearest64 x q = (is_binary64 q \<and> (\<forall>d. is_binary64 d \<longrightarrow> \<bar>x - q\<bar> \<le> \<bar>x - d\<bar>))"


subsection \<open>The world outside\<close>

text \<open>
  The file system: \<open>nodes\<close> gives, for every path that exists, what \<open>stat\<close> reports
  of it and whether \<open>unlink\<close> removes it (it does not remove a directory, a file in use
  or one it has no permission for); \<open>listing\<close> gives, for a path that is a directory, the
  names \<open>readdir\<close> returns. A listed name need not exist any more when it is looked at.
\<close>

record node =
  mtimeMs :: real
  byte_size :: nat
  unlink_ok :: bool

record fsys =
  nodes :: "string \<rightharpoonup> node"
  listing :: "string \<rightharpoonup> string list"

definition existsSync :: "fsys \<Rightarrow> string \<Rightarrow> bool" where
  "existsSync fs p = (nodes fs p \<noteq> None)"

definition statSync :: "fsys \<Rightarrow> string \<Rightarrow> error + node" where
  "statSync fs p =
     (case nodes fs p of None \<Rightarrow> Inl (ExternalError ''ENOENT'') | Some n \<Rightarrow> Inr n)"

definition unlinkSync :: "fsys \<Rightarrow> string \<Rightarrow> error + fsys" where
  "unlinkSync fs p =
     (case nodes fs p of
        None \<Rightarrow> Inl (ExternalError ''ENOENT'')
      | Some n \<Rightarrow>
          if unlink_ok n then Inr (fs\<lparr>nodes := (nodes fs)(p := None)\<rparr>)
          else Inl (ExternalError ''EPERM''))"

definition readdirSync :: "fsys \<Rightarrow> string \<Rightarrow> error + string list" where
  "readdirSync fs p =
     (case listing fs p of None \<Rightarrow> Inl (ExternalError ''ENOTDIR'') | Some ns \<Rightarrow> Inr ns)"

text \<open>
  \<open>path.join\<close> of a normalised directory and a single name that is neither \<open>.\<close>
  nor \<open>..\<close>, which is all the server joins.
\<close>

definition path_join :: "string \<Rightarrow> string \<Rightarrow> string" where
  "path_join d n = d @ ''/'' @ n"

text \<open>
  The transcript the speech API returns, with the fields the server reads; \<open>segments\<close>
  may be missing.
\<close>

record segment =
  seg_start :: real
  seg_end :: real
  seg_text :: string

record transcription =
  full_text :: string
  segments :: "segment list option"

text \<open>
  What a child process leaves behind: the error \<open>exec\<close> passes to its callback (on a
  non-zero exit or a timeout), the standard output, and the file system.
\<close>

record exec_result =
  exec_error :: "error option"
  stdout :: string
  fs_after :: fsys

text \<open>
  The answers of the outside world. The chat completion answers a prompt with an error
  (the call fails, or the completion has no \<open>choices\<close>) or with the content of the first
  choice, if it has one.
\<close>

record world =
  dirname :: string
  GROQ_API_KEY :: "string option"
  Date_now :: int
  exec :: "string \<Rightarrow> fsys \<Rightarrow> exec_result"
  transcribe :: "string \<Rightarrow> fsys \<Rightarrow> error + transcription"
  chat_completion :: "string \<Rightarrow> error + string option"
  error_message :: "error \<Rightarrow> string"

definition DOWNLOADS_DIR :: "world \<Rightarrow> string" where
  "DOWNLOADS_DIR w = path_join (dirname w) ''downloads''"

definition TEMP_DIR :: "world \<Rightarrow> string" where
  "TEMP_DIR w = path_join (dirname w) ''temp''"

text \<open>What a handler did to the outside world, in order.\<close>

datatype effect = Exec string | Transcribe string | Chat string

text \<open>
  How a request ends: with a response; with the handler's promise rejected, so that no
  response is sent; or with an exception thrown in a callback that nothing catches, which
  ends the process.
\<close>

datatype outcome = Responded nat json | Rejected error | Uncaught error

text \<open>An object literal: a property whose value is \<open>undefined\<close> is not serialised.\<close>

definition obj :: "(string \<times> json option) list \<Rightarrow> json" where
  "obj kvs = JObj (concat (map (\<lambda>(k, v). case v of None \<Rightarrow> [] | Some x \<Rightarrow> [(k, x)]) kvs))"

text \<open>A value in a template literal.\<close>

definition to_string :: "runtime \<Rightarrow> json option \<Rightarrow> string" where
  "to_string rt v =
     (case v of
        None \<Rightarrow> ''undefined''
      | Some JNull \<Rightarrow> ''null''
      | Some (JBool b) \<Rightarrow> (if b then ''true'' else ''false'')
      | Some (JNum r) \<Rightarrow>
          if r = of_int \<lfloor>r\<rfloor> then Number_toString rt \<lfloor>r\<rfloor> else string_of_other rt (JNum r)
      | Some (JStr s) \<Rightarrow> s
      | Some x \<Rightarrow> string_of_other rt x)"

subsection \<open>\<open>findHighlights\<close>\<close>

text \<open>\<open>Array.prototype.join\<close>.\<close>

fun join :: "string \<Rightarrow> string list \<Rightarrow> string" where
  "join sep [] = []"
| "join sep [x] = x"
| "join sep (x # y # ys) = x @ sep @ join sep (y # ys)"

definition segmentText :: "runtime \<Rightarrow> segment list \<Rightarrow> string" where
  "segmentText rt segs =
     join ''\<newline>''
       (map (\<lambda>s. ''['' @ formatTime rt (seg_start s) @ '' - '' @ formatTime rt (seg_end s)
                  @ '']: '' @ seg_text s) segs)"

definition prompt :: "runtime \<Rightarrow> segment list \<Rightarrow> string" where
  "prompt rt segs = join ''\<newline>''
     [''Du bist ein Video-Editor-Experte. Analysiere dieses Transkript und finde die 3-5 besten Clip-Momente.'',
      '''',
      ''Suche nach:'',
      ''- Spannenden oder lustigen Momenten'',
      ''- Wichtigen Aussagen'',
      ''- Emotionalen H'' @ [CHR 0xF6] @ ''hepunkten'',
      ''- '' @ [CHR 0xDC] @ ''berraschenden Wendungen'',
      ''- Quotable Moments (Zitate die viral gehen k'' @ [CHR 0xF6] @ ''nnten)'',
      '''',
      ''Transkript:'',
      segmentText rt segs,
      '''',
      ''Antworte NUR im JSON-Format:'',
      ''['',
      ''  {'',
      ''    \"start\": 0,'',
      ''    \"end\": 30,'',
      ''    \"title\": \"Kurzer Clip-Titel\",'',
      ''    \"reason\": \"Warum ist das interessant\",'',
      ''    \"score\": 95'',
      ''  }'',
      '']'',
      '''',
      ''Regeln:'',
      ''- start/end in Sekunden (Ganzzahlen)'',
      ''- Clips sollten 15-60 Sekunden lang sein'',
      ''- score von 1-100 (wie gut ist der Clip)'',
      ''- Maximal 5 Clips'',
      ''- NUR valides JSON, kein anderer Text'']"

text \<open>
  \<open>response.match(/\[[\s\S]*\]/)\<close>: the match starts at the first \<open>[\<close> and, the
  star being greedy, ends at the last \<open>]\<close> of the text; there is none when no \<open>]\<close>
  follows the first \<open>[\<close>.
\<close>

definition match_array :: "string \<Rightarrow> string option" where
  "match_array s =
     (let r = dropWhile (\<lambda>c. c \<noteq> CHR ''['') s;
          m = rev (dropWhile (\<lambda>c. c \<noteq> CHR '']'') (rev r))
      in if m = [] then None else Some m)"

text \<open>
  The comparator \<open>(a, b) => b.score - a.score\<close>: a TypeError when \<open>a\<close> or \<open>b\<close> is
  \<open>null\<close>, else the difference, \<open>None\<close> being NaN.
\<close>

definition ToNumber :: "runtime \<Rightarrow> json option \<Rightarrow> real option" where
  "ToNumber rt v =
     (case v of
        None \<Rightarrow> None
      | Some JNull \<Rightarrow> Some 0
      | Some (JBool b) \<Rightarrow> Some (if b then 1 else 0)
      | Some (JNum r) \<Rightarrow> Some r
      | Some x \<Rightarrow> number_of_other rt x)"

definition by_score :: "runtime \<Rightarrow> json \<Rightarrow> json \<Rightarrow> error + real option" where
  "by_score rt a b =
     (case get_prop b ''score'' of
        Inl e \<Rightarrow> Inl e
      | Inr sb \<Rightarrow>
          (case get_prop a ''score'' of
             Inl e \<Rightarrow> Inl e
           | Inr sa \<Rightarrow>
               Inr (case (ToNumber rt sb, ToNumber rt sa) of
                      (Some x, Some y) \<Rightarrow> Some (x - y)
                    | _ \<Rightarrow> None)))"

text \<open>
  \<open>Array.prototype.sort\<close> with a comparator, as a stable insertion sort: \<open>x\<close> goes
  behind \<open>y\<close> when the comparator's value for \<open>(x, y)\<close> is positive, and stays in front
  of it when the value is negative, zero or NaN. An exception of the comparator ends the
  sort. (ECMAScript leaves the order to the implementation when the comparator is not
  consistent; the theorems on the order are for comparators that are.)
\<close>

fun insert_by :: "(json \<Rightarrow> json \<Rightarrow> error + real option) \<Rightarrow> json \<Rightarrow> json list \<Rightarrow> error + json list" where
  "insert_by cmp x [] = Inr [x]"
| "insert_by cmp x (y # ys) =
     (case cmp x y of
        Inl e \<Rightarrow> Inl e
      | Inr v \<Rightarrow>
          if (case v of None \<Rightarrow> False | Some d \<Rightarrow> 0 < d)
          then (case insert_by cmp x ys of Inl e \<Rightarrow> Inl e | Inr zs \<Rightarrow> Inr (y # zs))
          else Inr (x # y # ys))"

fun Array_sort :: "(json \<Rightarrow> json \<Rightarrow> error + real option) \<Rightarrow> json list \<Rightarrow> error + json list" where
  "Array_sort cmp [] = Inr []"
| "Array_sort cmp (x # xs) =
     (case Array_sort cmp xs of Inl e \<Rightarrow> Inl e | Inr ys \<Rightarrow> insert_by cmp x ys)"

text \<open>
  The body of the \<open>try\<close> block once the completion has arrived: the default for a
  missing or empty content, the match, \<open>JSON.parse\<close>, the sort (a TypeError on a value
  that has no \<open>sort\<close>).
\<close>

definition response_text :: "string option \<Rightarrow> string" where
  "response_text content = (case content of None \<Rightarrow> ''[]'' | Some c \<Rightarrow> if c = [] then ''[]'' else c)"

definition extract_highlights :: "runtime \<Rightarrow> string option \<Rightarrow> error + json list" where
  "extract_highlights rt content =
     (let response = response_text content
      in case match_array response of
           None \<Rightarrow> Inr []
         | Some jsonMatch \<Rightarrow>
             (case JSON_parse rt jsonMatch of
                None \<Rightarrow> Inl SyntaxError
              | Some (JArr highlights) \<Rightarrow> Array_sort (by_score rt) highlights
              | Some _ \<Rightarrow> Inl TypeError))"

text \<open>The segments \<open>findHighlights\<close> works on: \<open>transcription.segments || []\<close>.\<close>

definition segments_of :: "transcription \<Rightarrow> segment list" where
  "segments_of t = (case segments t of None \<Rightarrow> [] | Some ss \<Rightarrow> ss)"

text \<open>
  \<open>findHighlights\<close>: the promise it returns (fulfilled with the highlights, or
  rejected) and the prompts it sent.
\<close>

definition findHighlights :: "runtime \<Rightarrow> world \<Rightarrow> transcription \<Rightarrow> (error + json list) \<times> effect list" where
  "findHighlights rt w t =
     (let segs = segments_of t
      in if length segs = 0 then (Inr [], [])
         else
           let p = prompt rt segs
           in (case (case chat_completion w p of
                       Inl e \<Rightarrow> Inl e
                     | Inr content \<Rightarrow> extract_highlights rt content) of
                 Inl e \<Rightarrow> Inr []
               | Inr hs \<Rightarrow> Inr hs,
               [Chat p]))"

subsection \<open>The handlers\<close>

definition error_body :: "string \<Rightarrow> json" where
  "error_body msg = obj [(''error'', Some (JStr msg))]"

text \<open>
  \<open>POST /api/video-info\<close>. The callback of \<open>exec\<close> runs after the handler has left
  its \<open>try\<close> block, so an exception in the callback is caught by nothing. (The block
  catches what \<open>exec\<close> itself throws when it is called, which the worlds of this model
  never do.)
\<close>

definition info_command :: "runtime \<Rightarrow> json option \<Rightarrow> string" where
  "info_command rt url = ''yt-dlp --dump-json --no-warnings \"'' @ to_string rt url @ ''\"''"

definition video_info :: "runtime \<Rightarrow> world \<Rightarrow> (string \<times> json) list \<Rightarrow> fsys \<Rightarrow> outcome \<times> effect list" where
  "video_info rt w body fs =
     (let url = field body ''url''
      in if falsy url then (Responded 400 (error_body ''URL fehlt''), [])
         else
           let command = info_command rt url;
               r = exec w command fs
           in ((case exec_error r of
                  Some error \<Rightarrow> Responded 500 (error_body ''Video nicht gefunden'')
                | None \<Rightarrow>
                    (case JSON_parse rt (stdout r) of
                       None \<Rightarrow> Uncaught SyntaxError
                     | Some JNull \<Rightarrow> Uncaught TypeError
                     | Some info \<Rightarrow>
                         Responded 200 (obj
                           [(''success'', Some (JBool True)),
                            (''title'', member_of info ''title''),
                            (''duration'', member_of info ''duration''),
                            (''thumbnail'', member_of info ''thumbnail''),
                            (''author'',
                               if falsy (member_of info ''uploader'')
                               then member_of info ''channel''
                               else member_of info ''uploader''),
                            (''videoId'', member_of info ''id'')]))),
               [Exec command]))"

text \<open>
  \<open>POST /api/analyze-video\<close>. \<open>analyze_catch\<close> is the \<open>catch\<close> block: an exception
  of its own \<open>unlinkSync\<close> rejects the handler's promise.
\<close>

definition analyze_catch :: "world \<Rightarrow> string \<Rightarrow> error \<Rightarrow> fsys \<Rightarrow> effect list \<Rightarrow> outcome \<times> fsys \<times> effect list" where
  "analyze_catch w audioFile e fs effs =
     (if existsSync fs audioFile
      then (case unlinkSync fs audioFile of
              Inl e' \<Rightarrow> (Rejected e', fs, effs)
            | Inr fs' \<Rightarrow> (Responded 500 (error_body (error_message w e)), fs', effs))
      else (Responded 500 (error_body (error_message w e)), fs, effs))"

definition segment_json :: "segment \<Rightarrow> json" where
  "segment_json s =
     JObj [(''start'', JNum (seg_start s)), (''end'', JNum (seg_end s)), (''text'', JStr (seg_text s))]"

definition analyze_body :: "transcription \<Rightarrow> json list \<Rightarrow> json" where
  "analyze_body t highlights =
     obj [(''success'', Some (JBool True)),
          (''transcription'', Some (JStr (full_text t))),
          (''segments'', map_option (\<lambda>ss. JArr (map segment_json ss)) (segments t)),
          (''highlights'', Some (JArr highlights))]"

definition audio_file :: "runtime \<Rightarrow> world \<Rightarrow> string" where
  "audio_file rt w = path_join (TEMP_DIR w) (''audio-'' @ Number_toString rt (Date_now w) @ ''.mp3'')"

definition audio_command :: "runtime \<Rightarrow> string \<Rightarrow> json option \<Rightarrow> string" where
  "audio_command rt audioFile url =
     ''yt-dlp -x --audio-format mp3 --audio-quality 5 -o \"'' @ audioFile
       @ ''\" --download-sections \"*0:00-10:00\" \"'' @ to_string rt url @ ''\"''"

definition analyze_video :: "runtime \<Rightarrow> world \<Rightarrow> (string \<times> json) list \<Rightarrow> fsys \<Rightarrow> outcome \<times> fsys \<times> effect list" where
  "analyze_video rt w body fs =
     (let url = field body ''url''
      in if falsy url then (Responded 400 (error_body ''URL fehlt''), fs, [])
         else if (case GROQ_API_KEY w of None \<Rightarrow> True | Some k \<Rightarrow> k = [])
         then (Responded 500 (error_body ''GROQ_API_KEY nicht konfiguriert''), fs, [])
         else
           let audioFile = audio_file rt w;
               cmd = audio_command rt audioFile url;
               r = exec w cmd fs;
               fs1 = fs_after r
           in case exec_error r of
                Some e \<Rightarrow> analyze_catch w audioFile e fs1 [Exec cmd]
              | None \<Rightarrow>
                  (case transcribe w audioFile fs1 of
                     Inl e \<Rightarrow> analyze_catch w audioFile e fs1 [Exec cmd, Transcribe audioFile]
                   | Inr t \<Rightarrow>
                       (case findHighlights rt w t of
                          (Inl e, chats) \<Rightarrow>
                            analyze_catch w audioFile e fs1 ([Exec cmd, Transcribe audioFile] @ chats)
                        | (Inr highlights, chats) \<Rightarrow>
                            (case unlinkSync fs1 audioFile of
                               Inl e \<Rightarrow>
                                 analyze_catch w audioFile e fs1 ([Exec cmd, Transcribe audioFile] @ chats)
                             | Inr fs2 \<Rightarrow>
                                 (Responded 200 (analyze_body t highlights),
                                  fs2, [Exec cmd, Transcribe audioFile] @ chats)))))"

text \<open>
  \<open>POST /api/create-clip\<close>. The name is made before the \<open>try\<close> block: a
  \<open>clipName\<close> that is truthy and not a string has no \<open>replace\<close>, and the TypeError
  rejects the handler's promise.
\<close>

definition name_chars :: string where
  "name_chars = ''abcdefghijklmnopqrstuvwxyz'' @ ''ABCDEFGHIJKLMNOPQRSTUVWXYZ'' @ ''0123456789'' @ ''-_''"

definition sanitize :: "string \<Rightarrow> string" where
  "sanitize s = take 50 (map (\<lambda>c. if c \<in> set name_chars then c else CHR ''_'') s)"

definition safeName :: "json option \<Rightarrow> error + string" where
  "safeName clipName =
     (case (if falsy clipName then Some (JStr ''clip'') else clipName) of
        Some (JStr s) \<Rightarrow> Inr (sanitize s)
      | _ \<Rightarrow> Inl TypeError)"

definition outputFile :: "runtime \<Rightarrow> world \<Rightarrow> string \<Rightarrow> string" where
  "outputFile rt w name = name @ ''-'' @ Number_toString rt (Date_now w) @ ''.mp4''"

definition clip_command :: "runtime \<Rightarrow> json option \<Rightarrow> json option \<Rightarrow> json option \<Rightarrow> string \<Rightarrow> string" where
  "clip_command rt url startTime duration outputPath =
     ''yt-dlp -f \"best[height<=720]/best\" --no-warnings -o - \"'' @ to_string rt url
       @ ''\" | ffmpeg -ss '' @ to_string rt startTime @ '' -i pipe:0 -t '' @ to_string rt duration
       @ '' -c:v libx264 -preset ultrafast -c:a aac -movflags +faststart -y \"'' @ outputPath @ ''\"''"

definition clip_body :: "string \<Rightarrow> node \<Rightarrow> json" where
  "clip_body file stats =
     obj [(''success'', Some (JBool True)),
          (''downloadUrl'', Some (JStr (''/downloads/'' @ file))),
          (''filename'', Some (JStr file)),
          (''size'', Some (JNum (real (byte_size stats))))]"

definition create_clip :: "runtime \<Rightarrow> world \<Rightarrow> (string \<times> json) list \<Rightarrow> fsys \<Rightarrow> outcome \<times> fsys \<times> effect list" where
  "create_clip rt w body fs =
     (let url = field body ''url'';
          startTime = field body ''startTime'';
          duration = field body ''duration'';
          clipName = field body ''clipName''
      in if falsy url \<or> startTime = None \<or> falsy duration
         then (Responded 400 (error_body ''Parameter fehlen''), fs, [])
         else
           (case safeName clipName of
              Inl e \<Rightarrow> (Rejected e, fs, [])
            | Inr name \<Rightarrow>
                let file = outputFile rt w name;
                    outputPath = path_join (DOWNLOADS_DIR w) file;
                    command = clip_command rt url startTime duration outputPath;
                    r = exec w command fs;
                    fs1 = fs_after r;
                    failed = Responded 500 (error_body ''Clip-Erstellung fehlgeschlagen'')
                in ((case exec_error r of
                       Some e \<Rightarrow> failed
                     | None \<Rightarrow>
                         if existsSync fs1 outputPath
                         then (case statSync fs1 outputPath of
                                 Inl e \<Rightarrow> failed
                               | Inr stats \<Rightarrow>
                                   Responded 200 (clip_body file stats))
                         else failed),
                    fs1, [Exec command])))"

subsection \<open>The sweep\<close>

text \<open>
  One run of the timer's callback, with \<open>Date.now()\<close> as \<open>now\<close>. An exception of
  \<open>statSync\<close> or \<open>unlinkSync\<close> is caught for each entry; one of \<open>readdirSync\<close> is
  not, and ends the run (the first component of the result).
\<close>

definition sweep_entry :: "real \<Rightarrow> string \<Rightarrow> string \<Rightarrow> fsys \<Rightarrow> fsys" where
  "sweep_entry oneHourAgo dir file fs =
     (let filePath = path_join dir file
      in case statSync fs filePath of
           Inl e \<Rightarrow> fs
         | Inr st \<Rightarrow>
             if mtimeMs st < oneHourAgo
             then (case unlinkSync fs filePath of Inl e \<Rightarrow> fs | Inr fs' \<Rightarrow> fs')
             else fs)"

definition sweep_dir :: "real \<Rightarrow> string \<Rightarrow> fsys \<Rightarrow> error option \<times> fsys" where
  "sweep_dir oneHourAgo dir fs =
     (if \<not> existsSync fs dir then (None, fs)
      else case readdirSync fs dir of
             Inl e \<Rightarrow> (Some e, fs)
           | Inr names \<Rightarrow> (None, fold (sweep_entry oneHourAgo dir) names fs))"

definition sweep :: "world \<Rightarrow> int \<Rightarrow> fsys \<Rightarrow> error option \<times> fsys" where
  "sweep w now fs =
     (let oneHourAgo = real_of_int (now - 3600000)
      in case sweep_dir oneHourAgo (DOWNLOADS_DIR w) fs of
           (Some e, fs1) \<Rightarrow> (Some e, fs1)
         | (None, fs1) \<Rightarrow> sweep_dir oneHourAgo (TEMP_DIR w) fs1)"

subsection \<open>A runtime for the examples\<close>

text \<open>
  The theorems hold for every runtime. The examples need one, and take this: a parser of
  JSON texts (values, arrays, objects, strings with the one-letter escapes, numbers with
  fraction and exponent; it knows no \<open>\u\<close> escape), NaN for the number of a string, an
  array or an object, a fixed text for the conversion that no example depends on, and all
  the digits of a large integer (which is its text when no shorter digits give the number
  back). The fuel of the parser is the length of the text, and each call reads at least
  one character.
\<close>

definition skip_ws :: "string \<Rightarrow> string" where
  "skip_ws s = dropWhile (\<lambda>c. c \<in> set [CHR '' '', CHR 0x09, CHR 0x0A, CHR 0x0D]) s"

definition unescape :: "char \<Rightarrow> char option" where
  "unescape c =
     map_of [(CHR 0x22, CHR 0x22), (CHR 0x5C, CHR 0x5C), (CHR ''/'', CHR ''/''),
             (CHR ''b'', CHR 0x08), (CHR ''f'', CHR 0x0C), (CHR ''n'', CHR 0x0A),
             (CHR ''r'', CHR 0x0D), (CHR ''t'', CHR 0x09)] c"

fun string_body :: "string \<Rightarrow> (string \<times> string) option" where
  "string_body [] = None"
| "string_body [c] = (if c = CHR 0x22 then Some ([], []) else None)"
| "string_body (c # d # cs) =
     (if c = CHR 0x22 then Some ([], d # cs)
      else if c = CHR 0x5C
      then (case unescape d of
              None \<Rightarrow> None
            | Some x \<Rightarrow> map_option (\<lambda>(s, r). (x # s, r)) (string_body cs))
      else if (of_char c :: nat) < 32 then None
      else map_option (\<lambda>(s, r). (c # s, r)) (string_body (d # cs)))"

definition is_digit :: "char \<Rightarrow> bool" where
  "is_digit c = (c \<in> set ''0123456789'')"

definition digit_value :: "char \<Rightarrow> nat" where
  "digit_value c = of_char c - 48"

definition decimal :: "string \<Rightarrow> nat" where
  "decimal ds = foldl (\<lambda>n c. 10 * n + digit_value c) 0 ds"

definition number_exponent :: "string \<Rightarrow> (real \<times> string) option" where
  "number_exponent s =
     (case s of
        [] \<Rightarrow> Some (1, [])
      | c # r \<Rightarrow>
          if c = CHR ''e'' \<or> c = CHR ''E''
          then (let neg = (r \<noteq> [] \<and> hd r = CHR ''-'');
                    r1 = (if r \<noteq> [] \<and> (hd r = CHR ''-'' \<or> hd r = CHR ''+'') then tl r else r);
                    ds = takeWhile is_digit r1
                in if ds = [] then None
                   else Some (if neg then 1 / 10 ^ decimal ds else 10 ^ decimal ds,
                              dropWhile is_digit r1))
          else Some (1, s))"

definition number_fraction :: "string \<Rightarrow> (real \<times> string) option" where
  "number_fraction s =
     (case s of
        [] \<Rightarrow> Some (0, [])
      | c # r \<Rightarrow>
          if c = CHR ''.''
          then (let ds = takeWhile is_digit r
                in if ds = [] then None
                   else Some (real (decimal ds) / 10 ^ length ds, dropWhile is_digit r))
          else Some (0, s))"

definition parse_number :: "string \<Rightarrow> (json \<times> string) option" where
  "parse_number s =
     (let neg = (s \<noteq> [] \<and> hd s = CHR ''-'');
          s1 = (if neg then tl s else s);
          ds = takeWhile is_digit s1
      in if ds = [] \<or> (1 < length ds \<and> hd ds = CHR ''0'') then None
         else (case number_fraction (dropWhile is_digit s1) of
                 None \<Rightarrow> None
               | Some (f, r1) \<Rightarrow>
                   (case number_exponent r1 of
                      None \<Rightarrow> None
                    | Some (e, r2) \<Rightarrow>
                        Some (JNum ((if neg then - 1 else 1) * (real (decimal ds) + f) * e), r2))))"

definition literal :: "string \<Rightarrow> json \<Rightarrow> string \<Rightarrow> (json \<times> string) option" where
  "literal l v s = (if take (length l) s = l then Some (v, drop (length l) s) else None)"

fun parse_value :: "nat \<Rightarrow> string \<Rightarrow> (json \<times> string) option"
  and parse_elements :: "nat \<Rightarrow> string \<Rightarrow> (json list \<times> string) option"
  and parse_members :: "nat \<Rightarrow> string \<Rightarrow> ((string \<times> json) list \<times> string) option" where
  "parse_value 0 s = None"
| "parse_value (Suc n) s =
     (case skip_ws s of
        [] \<Rightarrow> None
      | c # cs \<Rightarrow>
          if c = CHR ''[''
          then (if take 1 (skip_ws cs) = '']'' then Some (JArr [], tl (skip_ws cs))
                else map_option (\<lambda>(xs, r). (JArr xs, r)) (parse_elements n cs))
          else if c = CHR ''{''
          then (if take 1 (skip_ws cs) = ''}'' then Some (JObj [], tl (skip_ws cs))
                else map_option (\<lambda>(kvs, r). (JObj kvs, r)) (parse_members n cs))
          else if c = CHR 0x22 then map_option (\<lambda>(x, r). (JStr x, r)) (string_body cs)
          else if c = CHR ''t'' then literal ''true'' (JBool True) (c # cs)
          else if c = CHR ''f'' then literal ''false'' (JBool False) (c # cs)
          else if c = CHR ''n'' then literal ''null'' JNull (c # cs)
          else parse_number (c # cs))"
| "parse_elements 0 s = None"
| "parse_elements (Suc n) s =
     (case parse_value n s of
        None \<Rightarrow> None
      | Some (v, r) \<Rightarrow>
          (case skip_ws r of
             [] \<Rightarrow> None
           | c # r' \<Rightarrow>
               if c = CHR '','' then map_option (\<lambda>(vs, r''). (v # vs, r'')) (parse_elements n r')
               else if c = CHR '']'' then Some ([v], r')
               else None))"
| "parse_members 0 s = None"
| "parse_members (Suc n) s =
     (case skip_ws s of
        [] \<Rightarrow> None
      | q # r \<Rightarrow>
          if q \<noteq> CHR 0x22 then None
          else (case string_body r of
                  None \<Rightarrow> None
                | Some (k, r1) \<Rightarrow>
                    (case skip_ws r1 of
                       [] \<Rightarrow> None
                     | c # r2 \<Rightarrow>
                         if c \<noteq> CHR '':'' then None
                         else (case parse_value n r2 of
                                 None \<Rightarrow> None
                               | Some (v, r3) \<Rightarrow>
                                   (case skip_ws r3 of
                                      [] \<Rightarrow> None
                                    | d # r4 \<Rightarrow>
                                        if d = CHR '',''
                                        then map_option (\<lambda>(kvs, r5). ((k, v) # kvs, r5)) (parse_members n r4)
                                        else if d = CHR ''}'' then Some ([(k, v)], r4)
                                        else None)))))"

definition parse_text :: "string \<Rightarrow> json option" where
  "parse_text s =
     (case parse_value (Suc (length s)) s of
        None \<Rightarrow> None
      | Some (v, r) \<Rightarrow> if skip_ws r = [] then Some v else None)"

definition example_runtime :: runtime where
  "example_runtime =
     \<lparr>JSON_parse = parse_text,
      number_of_other = (\<lambda>v. None),
      string_of_other = (\<lambda>v. ''[object Object]''),
      large_integer_text = (\<lambda>n. (if n < 0 then ''-'' else []) @ digits (nat \<bar>n\<bar>))\<rparr>"


subsection \<open>Notions the claims use\<close>

text \<open>
  The three ways the reply can fail: the call fails, the reply has no match of the
  pattern, or \<open>JSON.parse\<close> throws on the match.
\<close>

definition reply_fails :: "runtime \<Rightarrow> error + string option \<Rightarrow> bool" where
  "reply_fails rt answer =
     (case answer of
        Inl e \<Rightarrow> True
      | Inr None \<Rightarrow> False
      | Inr (Some reply) \<Rightarrow>
          (case match_array reply of None \<Rightarrow> True | Some m \<Rightarrow> JSON_parse rt m = None))"

text \<open>A highlight object: an object whose \<open>score\<close> is a number; and that number.\<close>

definition is_highlight :: "json \<Rightarrow> bool" where
  "is_highlight v =
     (case v of
        JObj kvs \<Rightarrow> (case field kvs ''score'' of Some (JNum r) \<Rightarrow> True | _ \<Rightarrow> False)
      | _ \<Rightarrow> False)"

definition score :: "json \<Rightarrow> real" where
  "score v =
     (case v of
        JObj kvs \<Rightarrow> (case field kvs ''score'' of Some (JNum r) \<Rightarrow> r | _ \<Rightarrow> 0)
      | _ \<Rightarrow> 0)"

text \<open>
  The array that \<open>JSON.parse\<close> makes of the reply to the prompt for a transcript, when
  there is one.
\<close>

definition reply_array :: "runtime \<Rightarrow> world \<Rightarrow> transcription \<Rightarrow> json list option" where
  "reply_array rt w t =
     (case chat_completion w (prompt rt (segments_of t)) of
        Inl e \<Rightarrow> None
      | Inr content \<Rightarrow>
          (case match_array (response_text content) of
             None \<Rightarrow> None
           | Some m \<Rightarrow> (case JSON_parse rt m of Some (JArr arr) \<Rightarrow> Some arr | _ \<Rightarrow> None)))"

text \<open>The highlights of a response.\<close>

definition response_highlights :: "outcome \<Rightarrow> json list option" where
  "response_highlights out =
     (case out of
        Responded st body \<Rightarrow>
          (case member_of body ''highlights'' of Some (JArr hs) \<Rightarrow> Some hs | _ \<Rightarrow> None)
      | _ \<Rightarrow> None)"

text \<open>An entry the sweep removes: one older than the threshold that \<open>unlink\<close> removes.\<close>

definition removable_old :: "real \<Rightarrow> node option \<Rightarrow> bool" where
  "removable_old c x = (case x of None \<Rightarrow> False | Some nd \<Rightarrow> mtimeMs nd < c \<and> unlink_ok nd)"

subsection \<open>Worlds for the examples\<close>

text \<open>
  A world in which the download writes the audio file, the speech API returns one
  segment and the chat completion gives a fixed answer.
\<close>

definition example_node :: node where
  "example_node = \<lparr>mtimeMs = 1700000000000, byte_size = 1024, unlink_ok = True\<rparr>"

definition example_transcription :: transcription where
  "example_transcription =
     \<lparr>full_text = ''hello'',
      segments = Some [\<lparr>seg_start = 0, seg_end = 65, seg_text = ''hello''\<rparr>]\<rparr>"

definition example_world :: "(error + string option) \<Rightarrow> world" where
  "example_world answer =
     \<lparr>dirname = ''/app'',
      GROQ_API_KEY = Some ''key'',
      Date_now = 1700000000000,
      exec = (\<lambda>cmd fs. \<lparr>exec_error = None, stdout = [],
                fs_after = fs\<lparr>nodes := (nodes fs)(''/app/temp/audio-1700000000000.mp3'' \<mapsto> example_node)\<rparr>\<rparr>),
      transcribe = (\<lambda>p fs. Inr example_transcription),
      chat_completion = (\<lambda>p. answer),
      error_message = (\<lambda>e. ''failed'')\<rparr>"

definition empty_fs :: fsys where
  "empty_fs = \<lparr>nodes = Map.empty, listing = Map.empty\<rparr>"

definition valid_analyze :: "world \<Rightarrow> (string \<times> json) list \<Rightarrow> bool" where
  "valid_analyze w body =
     (\<not> falsy (field body ''url'') \<and> (case GROQ_API_KEY w of None \<Rightarrow> False | Some k \<Rightarrow> k \<noteq> []))"

text \<open>The two highlights of the specification's example, and replies that embed arrays.\<close>

definition highlight_A :: json where
  "highlight_A =
     JObj [(''start'', JNum 0), (''end'', JNum 20), (''title'', JStr ''A''),
           (''reason'', JStr ''x''), (''score'', JNum 50)]"

definition highlight_B :: json where
  "highlight_B =
     JObj [(''start'', JNum 20), (''end'', JNum 40), (''title'', JStr ''B''),
           (''reason'', JStr ''y''), (''score'', JNum 90)]"

definition two_item_reply :: string where
  "two_item_reply = ''Here you go: '' @
     ''[{\"start\":0,\"end\":20,\"title\":\"A\",\"reason\":\"x\",\"score\":50},'' @
     ''{\"start\":20,\"end\":40,\"title\":\"B\",\"reason\":\"y\",\"score\":90}]''"

definition six_item_reply :: string where
  "six_item_reply =
     ''[{\"score\":1},{\"score\":2},{\"score\":3},{\"score\":4},{\"score\":5},{\"score\":6}]''"

text \<open>
  A world in which the download utility exits with status 0 and prints one JSON object
  per line, as it does for the URL of a playlist; and one in which the clip pipeline writes
  its output file.
\<close>

definition playlist_world :: world where
  "playlist_world =
     (example_world (Inr None))
       \<lparr>exec := (\<lambda>cmd fs. \<lparr>exec_error = None,
                  stdout = ''{\"id\":\"a\"}\<newline>{\"id\":\"b\"}\<newline>'',
                  fs_after = fs\<rparr>)\<rparr>"

definition clip_world :: world where
  "clip_world =
     (example_world (Inr None))
       \<lparr>exec := (\<lambda>cmd fs. \<lparr>exec_error = None, stdout = [],
                  fs_after = fs\<lparr>nodes := (nodes fs)(''/app/downloads/My_Clip_-1700000000000.mp4'' \<mapsto> example_node)\<rparr>\<rparr>)\<rparr>"

definition numeric_name_request :: "(string \<times> json) list" where
  "numeric_name_request =
     [(''url'', JStr ''https://example.com/v''), (''startTime'', JNum 0), (''duration'', JNum 30),
      (''clipName'', JNum 5)]"

definition clip_request :: "(string \<times> json) list" where
  "clip_request =
     [(''url'', JStr ''https://example.com/v''), (''startTime'', JNum 0), (''duration'', JNum 30),
      (''clipName'', JStr ''My Clip!'')]"

text \<open>
  A file system for the sweep: the downloads directory lists a name that no longer
  exists, an old file that \<open>unlink\<close> refuses, an old file and a recent one.
\<close>

definition old_node :: node where
  "old_node = \<lparr>mtimeMs = 0, byte_size = 1024, unlink_ok = True\<rparr>"

definition busy_node :: node where
  "busy_node = \<lparr>mtimeMs = 0, byte_size = 1024, unlink_ok = False\<rparr>"

definition recent_node :: node where
  "recent_node = \<lparr>mtimeMs = 1699999990000, byte_size = 1024, unlink_ok = True\<rparr>"

definition sweep_fs :: fsys where
  "sweep_fs =
     \<lparr>nodes = [''/app/downloads'' \<mapsto> busy_node,
               ''/app/temp'' \<mapsto> busy_node,
               ''/app/downloads/busy.mp4'' \<mapsto> busy_node,
               ''/app/downloads/old.mp4'' \<mapsto> old_node,
               ''/app/downloads/new.mp4'' \<mapsto> recent_node],
      listing = [''/app/downloads'' \<mapsto> [''gone.mp4'', ''busy.mp4'', ''old.mp4'', ''new.mp4''],
                 ''/app/temp'' \<mapsto> []]\<rparr>"

section \<open>Theorems\<close>

subsection \<open>\<open>formatTime\<close>\<close>

lemma js_rem_nonneg:
  assumes "0 \<le> s"
  shows "js_rem s 60 = s - 60 * of_int \<lfloor>s / 60\<rfloor>"
  using assms by (simp add: js_rem_def trunc_def)

lemma seconds_range:
  fixes s :: real
  shows "0 \<le> \<lfloor>s - 60 * of_int \<lfloor>s / 60\<rfloor>\<rfloor> \<and> \<lfloor>s - 60 * of_int \<lfloor>s / 60\<rfloor>\<rfloor> < 60"
proof -
  have a: "of_int \<lfloor>s / 60\<rfloor> \<le> s / 60" by (rule of_int_floor_le)
  have b: "s / 60 < of_int \<lfloor>s / 60\<rfloor> + 1" by linarith
  from a have "0 \<le> s - 60 * of_int \<lfloor>s / 60\<rfloor>" by linarith
  moreover from b have "s - 60 * of_int \<lfloor>s / 60\<rfloor> < 60" by linarith
  ultimately show ?thesis by (simp add: floor_less_iff)
qed

lemma digits_small: "n < 10 \<Longrightarrow> digits n = [''0123456789'' ! n]"
  by (simp add: digits.simps)

lemma digits_two: "10 \<le> n \<Longrightarrow> n < 100 \<Longrightarrow> digits n = two_digits n"
  by (simp add: digits.simps [of n] digits_small two_digits_def)

lemma pad_seconds: "n < 60 \<Longrightarrow> padStart 2 ''0'' (digits n) = two_digits n"
proof (cases "n < 10")
  case True
  then show ?thesis by (simp add: padStart_def digits_small two_digits_def)
next
  case False
  assume "n < 60"
  with False show ?thesis by (simp add: padStart_def digits_two two_digits_def)
qed

lemma Number_toString_decimal:
  "0 \<le> n \<Longrightarrow> n < 2 ^ 53 \<Longrightarrow> Number_toString rt n = digits (nat n)"
  by (simp add: Number_toString_def)

lemma seconds_part_less: "seconds_part s < 60"
proof -
  have "\<lfloor>s - 60 * of_int \<lfloor>s / 60\<rfloor>\<rfloor> < 60" using seconds_range [of s] by blast
  then show ?thesis unfolding seconds_part_def by linarith
qed

lemma seconds_string:
  "Number_toString rt \<lfloor>s - 60 * of_int \<lfloor>s / 60\<rfloor>\<rfloor> = digits (seconds_part s)"
  using seconds_range [of s] by (simp add: Number_toString_def seconds_part_def)

lemma formatTime_eq:
  assumes "0 \<le> s"
  shows "formatTime rt s =
     Number_toString rt \<lfloor>divide s 60\<rfloor> @ '':'' @ two_digits (seconds_part s)"
  using assms seconds_part_less [of s]
  by (simp add: formatTime_def Math_floor_def js_rem_nonneg seconds_string
      pad_seconds Let_def del: One_nat_def)

subsection \<open>The binary64 values\<close>

text \<open>
  A binary64 value of magnitude at least \<open>2^j * 2^-1074\<close> is a multiple of
  \<open>2^(j - 52) * 2^-1074\<close>: the values are the farther apart the larger they are.
\<close>

lemma grid_gen:
  fixes x :: real and m :: int
  assumes x: "x = of_int m * 2 ^ e / 2 ^ E" and m: "\<bar>m\<bar> < 2 ^ 53" and lo: "2 ^ j / 2 ^ E \<le> \<bar>x\<bar>"
  shows "\<exists>n :: int. x = of_int n * 2 ^ (j - 52) / 2 ^ E"
proof -
  have ax: "\<bar>x\<bar> = \<bar>real_of_int m\<bar> * 2 ^ e / 2 ^ E" by (simp add: x abs_mult)
  have "2 ^ j / (2::real) ^ E \<le> \<bar>real_of_int m\<bar> * 2 ^ e / 2 ^ E" using lo ax by simp
  then have 1: "(2::real) ^ j \<le> \<bar>real_of_int m\<bar> * 2 ^ e" by (simp add: divide_le_cancel)
  have "\<bar>real_of_int m\<bar> < 2 ^ 53"
  proof -
    have "real_of_int \<bar>m\<bar> < real_of_int (2 ^ 53)" using m by (simp only: of_int_less_iff)
    then show ?thesis by simp
  qed
  then have 2: "\<bar>real_of_int m\<bar> * 2 ^ e < 2 ^ 53 * 2 ^ e"
    by (rule mult_strict_right_mono) simp
  from 1 2 have "(2::real) ^ j < 2 ^ 53 * 2 ^ e" by (rule le_less_trans)
  then have "(2::real) ^ j < 2 ^ (53 + e)" by (simp only: power_add)
  then have "j < 53 + e" by (simp only: power_strict_increasing_iff)
  then have "e = (e - (j - 52)) + (j - 52)" by arith
  then have "(2::real) ^ e = 2 ^ (e - (j - 52)) * 2 ^ (j - 52)" by (metis power_add)
  then have "x = of_int (m * 2 ^ (e - (j - 52))) * 2 ^ (j - 52) / 2 ^ E" by (simp add: x)
  then show ?thesis by blast
qed

lemma binary64_grid:
  assumes "is_binary64 x" and "2 ^ j / 2 ^ 1074 \<le> \<bar>x\<bar>"
  shows "\<exists>n :: int. x = of_int n * 2 ^ (j - 52) / 2 ^ 1074"
proof -
  from assms(1) obtain m :: int and e :: nat where
    "\<bar>m\<bar> < 2 ^ 53" "x = of_int m * 2 ^ e / 2 ^ 1074" unfolding is_binary64_def by blast
  then show ?thesis using grid_gen [of x m e 1074 j] assms(2) by blast
qed

lemma binary64_of_int:
  assumes "\<bar>n\<bar> < 2 ^ 53"
  shows "is_binary64 (of_int n)"
proof -
  have "real_of_int n = of_int n * 2 ^ 1074 / 2 ^ 1074" by simp
  moreover have "(1074::nat) \<le> 2045" by simp
  ultimately show ?thesis unfolding is_binary64_def using assms by blast
qed

text \<open>A multiple of \<open>2^p / 2^53\<close> with fewer than 53 bits.\<close>

lemma binary64_scaled:
  assumes "\<bar>m\<bar> < 2 ^ 53" and "p \<le> 1024"
  shows "is_binary64 (of_int m * 2 ^ p / 2 ^ 53)"
proof -
  have "(2::real) ^ (p + 1021) = 2 ^ p * 2 ^ 1021" by (rule power_add)
  moreover have "(2::real) ^ 1074 = 2 ^ 53 * 2 ^ 1021"
  proof -
    have "(1074::nat) = 53 + 1021" by simp
    then show ?thesis by (metis power_add)
  qed
  ultimately have "real_of_int m * 2 ^ p / 2 ^ 53 = of_int m * 2 ^ (p + 1021) / 2 ^ 1074"
    by (simp only: times_divide_eq_right mult.assoc [symmetric]) (simp add: field_simps)
  moreover have "p + 1021 \<le> 2045" using assms(2) by simp
  ultimately show ?thesis unfolding is_binary64_def using assms(1) by blast
qed

lemma pick_exponent:
  fixes k :: int
  assumes "1 \<le> k" and "k \<le> 2 ^ 50"
  shows "\<exists>p :: nat. p \<le> 50 \<and> k \<le> 2 ^ p \<and> 2 ^ p < 2 * k"
proof -
  define p where "p = (LEAST p :: nat. k \<le> 2 ^ p)"
  have kp: "k \<le> 2 ^ p" unfolding p_def using assms(2) by (rule LeastI)
  have p50: "p \<le> 50" unfolding p_def using assms(2) by (rule Least_le)
  have "2 ^ p < 2 * k"
  proof (cases p)
    case 0
    then show ?thesis using assms(1) by simp
  next
    case (Suc p')
    then have "p' < p" by simp
    then have "\<not> k \<le> 2 ^ p'" unfolding p_def by (rule not_less_Least)
    then show ?thesis using Suc by simp
  qed
  with kp p50 show ?thesis by blast
qed

lemma scaled_grid:
  assumes "is_binary64 s" and "16 * 2 ^ p \<le> s"
  shows "\<exists>n :: int. s = of_int n * 2 ^ p / 2 ^ 48"
proof -
  have a: "(2::real) ^ (p + 1078) = 16 * 2 ^ p * 2 ^ 1074"
  proof -
    have "p + 1078 = 4 + p + 1074" by simp
    then have "(2::real) ^ (p + 1078) = 2 ^ 4 * 2 ^ p * 2 ^ 1074" by (metis power_add)
    then show ?thesis by simp
  qed
  have "0 \<le> s" using assms(2) by (smt (verit) zero_le_power mult_nonneg_nonneg)
  have "(2::real) ^ (p + 1078) / 2 ^ 1074 = 16 * 2 ^ p" unfolding a by simp
  then have "(2::real) ^ (p + 1078) / 2 ^ 1074 \<le> \<bar>s\<bar>" using assms(2) \<open>0 \<le> s\<close> by simp
  from binary64_grid [OF assms(1) this] obtain n :: int where
    n: "s = of_int n * 2 ^ (p + 1078 - 52) / 2 ^ 1074" by blast
  have "p + 1078 - 52 = p + 1026" by simp
  then have b: "(2::real) ^ (p + 1078 - 52) = 2 ^ p * 2 ^ 1026" by (simp only: power_add)
  have c: "(2::real) ^ 1074 = 2 ^ 48 * 2 ^ 1026"
  proof -
    have "(1074::nat) = 48 + 1026" by simp
    then show ?thesis by (metis power_add)
  qed
  have "s = of_int n * 2 ^ p / 2 ^ 48" unfolding n b c by simp
  then show ?thesis by blast
qed

lemma floor_quotient:
  assumes b: "is_binary64 s" and s0: "0 \<le> s" and s1: "s < 60 * 2 ^ 50"
    and n: "nearest64 (s / 60) q"
  shows "\<lfloor>q\<rfloor> = \<lfloor>s / 60\<rfloor>"
proof -
  define x where "x = s / 60"
  define k0 where "k0 = \<lfloor>x\<rfloor>"
  define k where "k = k0 + 1"
  have xs: "s = 60 * x" by (simp add: x_def)
  have lo: "of_int k0 \<le> x" unfolding k0_def by (rule of_int_floor_le)
  have hi: "x < of_int k" unfolding k0_def k_def by linarith
  have x0: "0 \<le> x" using s0 by (simp add: x_def)
  have x1: "x < 2 ^ 50" using s1 by (simp add: x_def)
  have k00: "0 \<le> k0" using x0 by (simp add: k0_def)
  have "k0 < 2 ^ 50"
  proof -
    have "x < of_int ((2::int) ^ 50)" using x1 by simp
    then show ?thesis unfolding k0_def by (simp only: floor_less_iff)
  qed
  then have k50: "k \<le> 2 ^ 50" and k1: "1 \<le> k" using k00 by (simp_all add: k_def)
  have near: "\<And>d. is_binary64 d \<Longrightarrow> \<bar>x - q\<bar> \<le> \<bar>x - d\<bar>"
    using n by (simp add: nearest64_def x_def)
  \<comment> \<open>the quotient is at least the integer below\<close>
  have "\<bar>k0\<bar> < 2 ^ 53" using k00 \<open>k0 < 2 ^ 50\<close> by simp
  then have "is_binary64 (of_int k0)" by (rule binary64_of_int)
  then have "\<bar>x - q\<bar> \<le> \<bar>x - of_int k0\<bar>" by (rule near)
  then have ql: "of_int k0 \<le> q" using lo by linarith
  \<comment> \<open>and below the integer above\<close>
  from pick_exponent [OF k1 k50] obtain p :: nat where
    p50: "p \<le> 50" and kp: "k \<le> 2 ^ p" and pk: "2 ^ p < 2 * k" by blast
  define u :: real where "u = 2 ^ p / 2 ^ 53"
  have u0: "0 < u" by (simp add: u_def)
  have kpr: "real_of_int k \<le> 2 ^ p"
  proof -
    have "real_of_int k \<le> real_of_int (2 ^ p)" using kp by (simp only: of_int_le_iff)
    then show ?thesis by simp
  qed
  have pkr: "(2::real) ^ p < 2 * real_of_int k"
  proof -
    have "real_of_int (2 ^ p) < real_of_int (2 * k)" using pk by (simp only: of_int_less_iff)
    then show ?thesis by simp
  qed
  define m where "m = k * 2 ^ (53 - p) - 1"
  have pw: "(2::int) ^ p * 2 ^ (53 - p) = 2 ^ 53"
  proof -
    have "p + (53 - p) = 53" using p50 by simp
    then show ?thesis by (metis power_add)
  qed
  have pwr: "(2::real) ^ (53 - p) * 2 ^ p = 2 ^ 53"
  proof -
    have "(53 - p) + p = 53" using p50 by simp
    then show ?thesis by (metis power_add)
  qed
  have "k * 2 ^ (53 - p) \<le> 2 ^ p * 2 ^ (53 - p)" using kp by (simp add: mult_right_mono)
  then have m1: "m < 2 ^ 53" unfolding m_def pw by simp
  have "1 * 1 \<le> k * 2 ^ (53 - p)" using k1 by (intro mult_mono) simp_all
  then have m0: "0 \<le> m" by (simp add: m_def)
  have "\<bar>m\<bar> < 2 ^ 53" using m0 m1 by simp
  moreover have "p \<le> 1024" using p50 by simp
  ultimately have ib: "is_binary64 (of_int m * 2 ^ p / 2 ^ 53)" by (rule binary64_scaled)
  have ie: "real_of_int m * 2 ^ p / 2 ^ 53 = of_int k - u"
  proof -
    have "real_of_int m * 2 ^ p = of_int k * (2 ^ (53 - p) * 2 ^ p) - 2 ^ p"
      by (simp add: m_def algebra_simps)
    then have "real_of_int m * 2 ^ p = of_int k * 2 ^ 53 - 2 ^ p" unfolding pwr .
    then show ?thesis by (simp add: u_def diff_divide_distrib)
  qed
  have "is_binary64 (of_int k - u)" using ib unfolding ie .
  then have nd: "\<bar>x - q\<bar> \<le> \<bar>x - (of_int k - u)\<bar>" by (rule near)
  have qh: "q < of_int k"
  proof (cases "x \<le> of_int k - u")
    case True
    with nd u0 show ?thesis by linarith
  next
    case False
    then have xd: "of_int k - u < x" by simp
    have u_small: "60 * u \<le> 14 * 2 ^ p"
    proof -
      have "60 * u = 2 ^ p * (60 / 2 ^ 53)" by (simp add: u_def)
      also have "\<dots> \<le> 2 ^ p * 14" by (intro mult_left_mono) simp_all
      finally show ?thesis by simp
    qed
    have "16 * 2 ^ p \<le> s" using xd pkr u_small unfolding xs by linarith
    from scaled_grid [OF b this] obtain n :: int where
      sn: "s = of_int n * 2 ^ p / 2 ^ 48" by blast
    define g :: real where "g = 2 ^ p / 2 ^ 48"
    have g0: "0 < g" by (simp add: g_def)
    have gu: "g = 32 * u" by (simp add: g_def u_def)
    have sg: "s = of_int n * g" by (simp add: sn g_def)
    have pw50: "(2::real) ^ (50 - p) * 2 ^ p = 2 ^ 50"
    proof -
      have "(50 - p) + p = 50" using p50 by simp
      then show ?thesis by (metis power_add)
    qed
    have kg: "60 * real_of_int k = of_int (15 * k * 2 ^ (50 - p)) * g"
    proof -
      have "of_int (15 * k * 2 ^ (50 - p)) * g = 15 * real_of_int k * (2 ^ (50 - p) * 2 ^ p) / 2 ^ 48"
        by (simp add: g_def)
      then show ?thesis unfolding pw50 by simp
    qed
    have "s < 60 * real_of_int k" using hi unfolding xs by linarith
    then have "real_of_int n * g < of_int (15 * k * 2 ^ (50 - p)) * g" unfolding sg kg .
    then have "real_of_int n < of_int (15 * k * 2 ^ (50 - p))" using g0 by (simp only: mult_less_cancel_right_pos)
    then have "n < 15 * k * 2 ^ (50 - p)" by (simp only: of_int_less_iff)
    then have "n + 1 \<le> 15 * k * 2 ^ (50 - p)" by simp
    then have "real_of_int (n + 1) \<le> of_int (15 * k * 2 ^ (50 - p))" by (simp only: of_int_le_iff)
    then have "real_of_int (n + 1) * g \<le> of_int (15 * k * 2 ^ (50 - p)) * g"
      using g0 by (simp only: mult_le_cancel_right_pos)
    then have "s + g \<le> 60 * real_of_int k" unfolding kg sg by (simp add: algebra_simps)
    then have "s < 60 * real_of_int k - 30 * u" using gu u0 by linarith
    then have "2 * x - (of_int k - u) < of_int k" unfolding xs by linarith
    with nd xd show ?thesis by linarith
  qed
  from ql qh have "\<lfloor>q\<rfloor> = k0" unfolding k_def by linarith
  then show ?thesis by (simp add: k0_def x_def)
qed

text \<open>
  A binary64 value that is closer to \<open>x\<close> than half the distance of the values around
  it is the only one nearest to \<open>x\<close>.
\<close>

lemma nearest64_unique:
  fixes x q :: real and n :: int
  assumes q: "is_binary64 q" and lo: "2 ^ j / 2 ^ 1074 \<le> x - \<bar>x - q\<bar>"
    and qn: "q = of_int n * 2 ^ (j - 52) / 2 ^ 1074" and half: "2 * \<bar>x - q\<bar> < 2 ^ (j - 52) / 2 ^ 1074"
    and d: "nearest64 x d"
  shows "d = q"
proof -
  define g :: real where "g = 2 ^ (j - 52) / 2 ^ 1074"
  have g0: "0 < g" by (simp add: g_def)
  have db: "is_binary64 d" using d by (simp add: nearest64_def)
  have dq: "\<bar>x - d\<bar> \<le> \<bar>x - q\<bar>" using d q by (simp add: nearest64_def)
  have "2 ^ j / 2 ^ 1074 \<le> d" using lo dq by linarith
  then have "2 ^ j / 2 ^ 1074 \<le> \<bar>d\<bar>" by linarith
  from binary64_grid [OF db this] obtain k :: int where
    dk: "d = of_int k * g" by (auto simp add: g_def)
  have qg: "q = of_int n * g" by (simp add: qn g_def)
  have t: "\<bar>d - q\<bar> \<le> \<bar>x - d\<bar> + \<bar>x - q\<bar>"
    using abs_triangle_ineq [of "d - x" "x - q"] by (simp add: abs_minus_commute)
  have "\<bar>x - d\<bar> + \<bar>x - q\<bar> \<le> \<bar>x - q\<bar> + \<bar>x - q\<bar>" using dq by (rule add_right_mono)
  with t have "\<bar>d - q\<bar> \<le> \<bar>x - q\<bar> + \<bar>x - q\<bar>" by (rule order_trans)
  moreover have "\<bar>x - q\<bar> + \<bar>x - q\<bar> < g" using half by (simp add: g_def)
  ultimately have "\<bar>d - q\<bar> < g" by (rule le_less_trans)
  then have "\<bar>real_of_int (k - n) * g\<bar> < 1 * g" by (simp add: dk qg algebra_simps)
  then have "\<bar>real_of_int (k - n)\<bar> * g < 1 * g" using g0 by (simp add: abs_mult)
  then have "\<bar>real_of_int (k - n)\<bar> < 1" using g0 by (simp only: mult_less_cancel_right_pos)
  then have "k = n" by linarith
  then show ?thesis by (simp add: dk qg)
qed

lemma binary64_65: "is_binary64 65"
  using binary64_of_int [of 65] by simp

lemma binary64_big: "is_binary64 540431955284459584"
  using binary64_scaled [of 8444249301319681 59] by simp

subsection \<open>The rounding of the quotient\<close>

text \<open>
  \<open>round64\<close> returns a binary64 value nearest to its argument, for every argument of
  magnitude below \<open>2^1023\<close>.
\<close>

lemma round_half_even_near: "\<bar>y - of_int (round_half_even y)\<bar> \<le> 1 / 2"
  unfolding round_half_even_def Let_def by (auto; linarith)

lemma round_half_even_nearest: "\<bar>y - of_int (round_half_even y)\<bar> \<le> \<bar>y - of_int n\<bar>"
proof (cases "n = round_half_even y")
  case True
  then show ?thesis by simp
next
  case False
  then have "1 \<le> \<bar>real_of_int (n - round_half_even y)\<bar>" by linarith
  then show ?thesis using round_half_even_near [of y] by (simp; linarith)
qed

lemma bit_length_upper: "n < 2 ^ bit_length n"
proof (induction n rule: bit_length.induct)
  case (1 n)
  show ?case
  proof (cases "n \<le> 0")
    case True
    then show ?thesis by (simp add: bit_length.simps [of n])
  next
    case False
    from 1 [OF False] have "n div 2 < 2 ^ bit_length (n div 2)" .
    then have "n < 2 * 2 ^ bit_length (n div 2)" by linarith
    then show ?thesis using False by (simp add: bit_length.simps [of n])
  qed
qed

lemma bit_length_lower: "0 < n \<Longrightarrow> 2 ^ (bit_length n - 1) \<le> n"
proof (induction n rule: bit_length.induct)
  case (1 n)
  then have n0: "\<not> n \<le> 0" by simp
  show ?case
  proof (cases "n div 2 \<le> 0")
    case True
    then show ?thesis using n0 by (simp add: bit_length.simps [of n] bit_length.simps [of "n div 2"] bit_length.simps [of 0])
  next
    case False
    then have "0 < n div 2" by simp
    from 1(1) [OF n0 this] have a: "2 ^ (bit_length (n div 2) - 1) \<le> n div 2" .
    have "bit_length (n div 2) \<noteq> 0" using False by (simp add: bit_length.simps [of "n div 2"])
    then have "(2::int) ^ bit_length (n div 2) = 2 * 2 ^ (bit_length (n div 2) - 1)"
      by (cases "bit_length (n div 2)") simp_all
    then have "(2::int) ^ bit_length (n div 2) \<le> n" using a by linarith
    then show ?thesis using n0 by (simp add: bit_length.simps [of n])
  qed
qed

lemma round64_nonneg:
  assumes x0: "0 < x" and x1: "x < 2 ^ 1023"
  shows "nearest64 x (round64 x)"
proof -
  define a where "a = x * 2 ^ 1074"
  define L where "L = bit_length \<lfloor>a\<rfloor>"
  define e where "e = L - 53"
  define y where "y = a / 2 ^ e"
  define m where "m = round_half_even y"
  define G :: real where "G = 2 ^ e / 2 ^ 1074"
  have G0: "0 < G" by (simp add: G_def)
  have a0: "0 < a" using x0 by (simp add: a_def)
  have q: "round64 x = of_int m * G"
    using x0 by (simp add: round64_def Let_def a_def L_def e_def y_def m_def G_def)
  have xG: "x = y * G" by (simp add: y_def G_def a_def)
  have y0: "0 < y" using a0 by (simp add: y_def)
  \<comment> \<open>the bounds of the scaled number\<close>
  have "\<lfloor>a\<rfloor> < 2 ^ L" unfolding L_def by (rule bit_length_upper)
  then have "a < of_int (2 ^ L)" by (simp only: floor_less_iff)
  then have aL: "a < 2 ^ L" by simp
  have "L \<le> 53 + e" by (simp add: e_def)
  then have "(2::real) ^ L \<le> 2 ^ (53 + e)" by (simp only: power_increasing_iff) 
  with aL have "a < 2 ^ (53 + e)" by (rule less_le_trans)
  then have "a < 2 ^ 53 * 2 ^ e" by (simp only: power_add)
  then have y53: "y < 2 ^ 53" by (simp add: y_def divide_less_eq)
  have lo: "2 ^ 52 \<le> y" if e0: "0 < e"
  proof -
    have Le: "L - 1 = 52 + e" using e0 by (simp add: e_def)
    have "L \<noteq> 0" using e0 by (simp add: e_def)
    then have "\<not> \<lfloor>a\<rfloor> \<le> 0" unfolding L_def by (auto simp add: bit_length.simps [of "\<lfloor>a\<rfloor>"])
    then have "0 < \<lfloor>a\<rfloor>" by simp
    then have "2 ^ (bit_length \<lfloor>a\<rfloor> - 1) \<le> \<lfloor>a\<rfloor>" by (rule bit_length_lower)
    then have "2 ^ (52 + e) \<le> \<lfloor>a\<rfloor>" unfolding L_def [symmetric] Le .
    then have "of_int (2 ^ (52 + e)) \<le> a" by (simp only: le_floor_iff)
    then have "2 ^ (52 + e) \<le> a" by simp
    then have "2 ^ 52 * 2 ^ e \<le> a" by (simp only: power_add)
    then show ?thesis by (simp add: y_def le_divide_eq)
  qed
  \<comment> \<open>the exponent is in range\<close>
  have e2044: "e \<le> 2044"
  proof (rule ccontr)
    assume "\<not> e \<le> 2044"
    then have e: "2045 \<le> e" by simp
    then have "0 < e" by simp
    then have "2 ^ 52 \<le> y" by (rule lo)
    then have "2 ^ 52 * 2 ^ e \<le> a" by (simp add: y_def le_divide_eq)
    moreover have "(2::real) ^ 2045 \<le> 2 ^ e" using e by (simp only: power_increasing_iff)
    then have "(2::real) ^ 52 * 2 ^ 2045 \<le> 2 ^ 52 * 2 ^ e" by (rule mult_left_mono) simp
    ultimately have "(2::real) ^ 52 * 2 ^ 2045 \<le> a" by (rule order_trans [rotated])
    then have "(2::real) ^ 52 * 2 ^ 2045 \<le> x * 2 ^ 1074" by (simp add: a_def)
    moreover have "x * 2 ^ 1074 < 2 ^ 1023 * 2 ^ 1074" using x1 by (rule mult_strict_right_mono) simp
    ultimately have "(2::real) ^ 52 * 2 ^ 2045 < 2 ^ 1023 * 2 ^ 1074" by (rule le_less_trans)
    then have "(2::real) ^ (52 + 2045) < 2 ^ (1023 + 1074)" by (simp only: power_add)
    then show False by (simp only: power_strict_increasing_iff)
  qed
  \<comment> \<open>the rounded number is a binary64 value\<close>
  have near: "\<bar>y - of_int m\<bar> \<le> 1 / 2" unfolding m_def by (rule round_half_even_near)
  have m0: "0 \<le> m" using near y0 by linarith
  have "real_of_int m < 2 ^ 53 + 1" using near y53 by linarith
  then have "real_of_int m < real_of_int (2 ^ 53 + 1)" by simp
  then have "m < 2 ^ 53 + 1" by (simp only: of_int_less_iff)
  then have m53: "m \<le> 2 ^ 53" by simp
  have b: "is_binary64 (of_int m * G)"
  proof (cases "m = 2 ^ 53")
    case True
    have "\<bar>(2::int) ^ 52\<bar> < 2 ^ 53 \<and> e + 1 \<le> 2045
        \<and> of_int m * G = of_int (2 ^ 52) * 2 ^ (e + 1) / 2 ^ 1074"
      using e2044 by (simp add: True G_def)
    then show ?thesis unfolding is_binary64_def by blast
  next
    case False
    with m53 m0 have "\<bar>m\<bar> < 2 ^ 53 \<and> e \<le> 2045 \<and> of_int m * G = of_int m * 2 ^ e / 2 ^ 1074"
      using e2044 by (simp add: G_def)
    then show ?thesis unfolding is_binary64_def by blast
  qed
  \<comment> \<open>and none is nearer\<close>
  have grid: "\<bar>x - of_int m * G\<bar> \<le> \<bar>x - of_int n * G\<bar>" for n :: int
  proof -
    have "\<bar>y - of_int m\<bar> \<le> \<bar>y - of_int n\<bar>" unfolding m_def by (rule round_half_even_nearest)
    then have "\<bar>y - of_int m\<bar> * G \<le> \<bar>y - of_int n\<bar> * G" using G0 by (simp only: mult_le_cancel_right_pos)
    moreover have "\<bar>x - of_int k * G\<bar> = \<bar>y - of_int k\<bar> * G" for k :: int
    proof -
      have "x - of_int k * G = (y - of_int k) * G" by (simp add: xG algebra_simps)
      then show ?thesis using G0 by (simp add: abs_mult)
    qed
    ultimately show ?thesis by simp
  qed
  have "\<bar>x - of_int m * G\<bar> \<le> \<bar>x - d\<bar>" if d: "is_binary64 d" for d
  proof (cases "e = 0 \<or> 2 ^ (52 + e) / 2 ^ 1074 \<le> \<bar>d\<bar>")
    case True
    have "\<exists>n :: int. d = of_int n * G"
    proof (cases "e = 0")
      case True
      from d obtain k :: int and i :: nat where "d = of_int k * 2 ^ i / 2 ^ 1074"
        unfolding is_binary64_def by blast
      then have "d = of_int (k * 2 ^ i) * G" by (simp add: G_def True)
      then show ?thesis by blast
    next
      case False
      with True have "2 ^ (52 + e) / 2 ^ 1074 \<le> \<bar>d\<bar>" by simp
      from binary64_grid [OF d this] show ?thesis by (simp add: G_def)
    qed
    then obtain n :: int where "d = of_int n * G" by blast
    then show ?thesis using grid [of n] by simp
  next
    case False
    then have e0: "0 < e" and dl: "\<bar>d\<bar> < 2 ^ (52 + e) / 2 ^ 1074" by simp_all
    have "(2::real) ^ (52 + e) = 2 ^ 52 * 2 ^ e" by (simp only: power_add)
    then have B: "(2::real) ^ (52 + e) / 2 ^ 1074 = of_int (2 ^ 52) * G" by (simp add: G_def)
    have "2 ^ 52 * G \<le> y * G" using lo [OF e0] G0 by (simp only: mult_le_cancel_right_pos)
    then have "of_int (2 ^ 52) * G \<le> x" by (simp add: xG)
    then have "\<bar>x - of_int (2 ^ 52) * G\<bar> \<le> \<bar>x - d\<bar>" using dl unfolding B by linarith
    with grid [of "2 ^ 52"] show ?thesis by (rule order_trans)
  qed
  with b show ?thesis unfolding q nearest64_def by blast
qed

lemma is_binary64_minus: "is_binary64 (- d) = is_binary64 d"
proof -
  have "is_binary64 (- d)" if "is_binary64 d" for d
  proof -
    from that obtain m :: int and e :: nat where
      "\<bar>m\<bar> < 2 ^ 53" and "e \<le> 2045" and "d = of_int m * 2 ^ e / 2 ^ 1074"
      unfolding is_binary64_def by blast
    then have "\<bar>- m\<bar> < 2 ^ 53 \<and> e \<le> 2045 \<and> - d = of_int (- m) * 2 ^ e / 2 ^ 1074" by simp
    then show ?thesis unfolding is_binary64_def by blast
  qed
  from this [of d] this [of "- d"] show ?thesis by auto
qed

lemma nearest64_minus: "nearest64 x q \<Longrightarrow> nearest64 (- x) (- q)"
proof -
  assume n: "nearest64 x q"
  have "\<bar>- x - - q\<bar> \<le> \<bar>- x - d\<bar>" if "is_binary64 d" for d
  proof -
    from that have "is_binary64 (- d)" by (simp only: is_binary64_minus)
    with n have "\<bar>x - q\<bar> \<le> \<bar>x - - d\<bar>" unfolding nearest64_def by blast
    then show ?thesis by linarith
  qed
  moreover have "is_binary64 (- q)" using n by (simp add: nearest64_def is_binary64_minus)
  ultimately show ?thesis unfolding nearest64_def by blast
qed

lemma round64_minus: "round64 (- x) = - round64 x"
  by (simp add: round64_def Let_def sgn_minus)

lemma round64_zero: "round64 0 = 0"
  by (simp add: round64_def)

lemma round64_nearest:
  assumes "\<bar>x\<bar> < 2 ^ 1023"
  shows "nearest64 x (round64 x)"
proof -
  consider "0 < x" | "x = 0" | "x < 0" by linarith
  then show ?thesis
  proof cases
    case 1
    then show ?thesis using assms by (intro round64_nonneg) simp_all
  next
    case 2
    have "is_binary64 0" using binary64_of_int [of 0] by simp
    then show ?thesis by (simp add: 2 round64_zero nearest64_def)
  next
    case 3
    then have "nearest64 (- x) (round64 (- x))" using assms by (intro round64_nonneg) simp_all
    then have "nearest64 (- (- x)) (- round64 (- x))" by (rule nearest64_minus)
    then show ?thesis by (simp add: round64_minus)
  qed
qed

subsection \<open>The text of a time\<close>

lemma floor_divide:
  assumes "is_binary64 s" and "0 \<le> s" and "s < 60 * 2 ^ 50"
  shows "\<lfloor>divide s 60\<rfloor> = \<lfloor>s / 60\<rfloor>"
proof -
  have "\<bar>s / 60\<bar> < 2 ^ 1023"
  proof -
    have "s / 60 < 2 ^ 50" using assms(3) by simp
    also have "(2::real) ^ 50 < 2 ^ 1023" by (simp only: power_strict_increasing_iff)
    finally show ?thesis using assms(2) by simp
  qed
  then have "nearest64 (s / 60) (round64 (s / 60))" by (rule round64_nearest)
  then show ?thesis unfolding divide_def by (rule floor_quotient [OF assms])
qed

lemma formatTime_binary64:
  assumes "is_binary64 s" and "0 \<le> s" and "s < 60 * 2 ^ 50"
  shows "formatTime rt s = digits (nat \<lfloor>s / 60\<rfloor>) @ '':'' @ two_digits (seconds_part s)"
proof -
  have nn: "0 \<le> \<lfloor>s / 60\<rfloor>" using assms(2) by simp
  have "s / 60 < of_int (2 ^ 50)" using assms(3) by simp
  then have "\<lfloor>s / 60\<rfloor> < 2 ^ 50" by (simp only: floor_less_iff)
  then have "\<lfloor>s / 60\<rfloor> < 2 ^ 53" by simp
  with nn have "Number_toString rt \<lfloor>s / 60\<rfloor> = digits (nat \<lfloor>s / 60\<rfloor>)"
    by (rule Number_toString_decimal)
  then show ?thesis using formatTime_eq [OF assms(2), of rt] floor_divide [OF assms] by simp
qed

lemma formatTime_0: "formatTime rt 0 = ''0:00''"
proof -
  have "is_binary64 0" using binary64_of_int [of 0] by simp
  from formatTime_binary64 [OF this, of rt] show ?thesis
    by (simp add: two_digits_def seconds_part_def digits_small)
qed

lemma formatTime_65: "formatTime rt 65 = ''1:05''"
  using formatTime_binary64 [OF binary64_65, of rt]
  by (simp add: two_digits_def seconds_part_def digits_small)

lemma formatTime_3599: "formatTime rt 3599 = ''59:59''"
proof -
  have "is_binary64 3599" using binary64_of_int [of 3599] by simp
  from formatTime_binary64 [OF this, of rt] show ?thesis
    by (simp add: two_digits_def seconds_part_def digits_two)
qed

text \<open>
  The bound \<open>60 * 2^50\<close> of \<open>floor_divide\<close> is the best one. The quotient of
  \<open>60 * 2^50 + 56\<close> by 60 is \<open>2^50 + 1 - 1/15\<close>; the binary64 values around it are
  a quarter apart, and the nearest is \<open>2^50 + 1\<close>. The quotient of 540431955284459584
  by 60 is \<open>2^53 + 1 + 1/15\<close>; the binary64 values around it are the even integers,
  and the nearest is \<open>2^53 + 2\<close>.
\<close>

lemma binary64_first: "is_binary64 67553994410557496"
  using binary64_scaled [of 8444249301319687 56] by simp

lemma divide_first: "divide 67553994410557496 60 = 1125899906842625"
proof -
  have "\<bar>67553994410557496 / 60 :: real\<bar> < 2 ^ 1023" by simp
  then have n: "nearest64 (67553994410557496 / 60) (round64 (67553994410557496 / 60))"
    by (rule round64_nearest)
  show ?thesis unfolding divide_def
  proof (rule nearest64_unique [where j = 1124 and n = 4503599627370500, OF _ _ _ _ n])
    show "is_binary64 1125899906842625" using binary64_of_int [of 1125899906842625] by simp
  qed simp_all
qed

lemma divide_big: "divide 540431955284459584 60 = 9007199254740994"
proof -
  have "\<bar>540431955284459584 / 60 :: real\<bar> < 2 ^ 1023" by simp
  then have n: "nearest64 (540431955284459584 / 60) (round64 (540431955284459584 / 60))"
    by (rule round64_nearest)
  show ?thesis unfolding divide_def
  proof (rule nearest64_unique [where j = 1127 and n = 4503599627370497, OF _ _ _ _ n])
    show "is_binary64 9007199254740994" using binary64_scaled [of 4503599627370497 54] by simp
  qed simp_all
qed

text \<open>
  Claim C4, as amended. For every binary64 number of seconds \<open>s\<close> with
  \<open>0 \<le> s < 60 * 2^50\<close> (about \<open>6.7 * 10^16\<close>), \<open>formatTime\<close> returns the decimal
  digits of \<open>\<lfloor>s / 60\<rfloor>\<close>, a colon, and the floor of \<open>s\<close> modulo 60 written with
  two digits, which is below 60. In particular \<open>formatTime 0\<close> is \<open>0:00\<close>,
  \<open>formatTime 65\<close> is \<open>1:05\<close> and \<open>formatTime 3599\<close> is \<open>59:59\<close>. The example
  after the next has two larger numbers of seconds, for which the minutes are not the
  floor of \<open>s / 60\<close>: the quotient is rounded before it is floored.
\<close>

theorem formatTime_minutes_seconds:
  assumes "is_binary64 s" and "0 \<le> s" and "s < 60 * 2 ^ 50"
  shows "formatTime rt s = digits (nat \<lfloor>s / 60\<rfloor>) @ '':'' @ two_digits (seconds_part s)
    \<and> seconds_part s < 60
    \<and> formatTime rt 0 = ''0:00''
    \<and> formatTime rt 65 = ''1:05''
    \<and> formatTime rt 3599 = ''59:59''"
  using formatTime_binary64 [OF assms, of rt] seconds_part_less [of s]
    formatTime_0 [of rt] formatTime_65 [of rt] formatTime_3599 [of rt] by blast

theorem formatTime_minutes_seconds_witness:
  "is_binary64 (251 / 2) \<and> (0::real) \<le> 251 / 2 \<and> (251 / 2 :: real) < 60 * 2 ^ 50
   \<and> formatTime example_runtime (251 / 2) = ''2:05''"
proof -
  have b: "is_binary64 (251 / 2)" using binary64_scaled [of 251 52] by simp
  have r: "(0::real) \<le> 251 / 2" "(251 / 2 :: real) < 60 * 2 ^ 50" by simp_all
  have m: "digits (nat \<lfloor>(251 / 2 :: real) / 60\<rfloor>) = ''2''" by (simp add: digits_small)
  have s: "two_digits (seconds_part (251 / 2)) = ''05''"
    by (simp add: two_digits_def seconds_part_def)
  from formatTime_minutes_seconds [OF b r, of example_runtime] m s b r show ?thesis by simp
qed

theorem formatTime_rounded_minutes:
  "is_binary64 67553994410557496 \<and> (0::real) \<le> 67553994410557496
   \<and> formatTime example_runtime 67553994410557496 = ''1125899906842625:56''
   \<and> digits (nat \<lfloor>(67553994410557496::real) / 60\<rfloor>) @ '':''
       @ two_digits (seconds_part 67553994410557496) = ''1125899906842624:56''
   \<and> is_binary64 540431955284459584 \<and> (0::real) \<le> 540431955284459584
   \<and> formatTime example_runtime 540431955284459584 = ''9007199254740994:04''
   \<and> digits (nat \<lfloor>(540431955284459584::real) / 60\<rfloor>) @ '':''
       @ two_digits (seconds_part 540431955284459584) = ''9007199254740993:04''"
proof -
  have f1: "\<lfloor>(67553994410557496::real) / 60\<rfloor> = 1125899906842624" by simp
  have s1: "seconds_part 67553994410557496 = 56" unfolding seconds_part_def f1 by simp
  have t1: "Number_toString example_runtime 1125899906842625 = ''1125899906842625''"
    by (simp add: Number_toString_def digits.simps)
  have d1: "digits (nat 1125899906842624) = ''1125899906842624''" by (simp add: digits.simps)
  have a1: "formatTime example_runtime 67553994410557496 = ''1125899906842625:56''"
    by (simp add: formatTime_eq divide_first t1 s1 two_digits_def)
  have b1: "digits (nat \<lfloor>(67553994410557496::real) / 60\<rfloor>) @ '':''
       @ two_digits (seconds_part 67553994410557496) = ''1125899906842624:56''"
    unfolding f1 s1 d1 by (simp add: two_digits_def)
  have f: "\<lfloor>(540431955284459584::real) / 60\<rfloor> = 9007199254740993" by simp
  have s: "seconds_part 540431955284459584 = 4" unfolding seconds_part_def f by simp
  have t: "Number_toString example_runtime 9007199254740994 = ''9007199254740994''"
    by (simp add: Number_toString_def example_runtime_def digits.simps)
  have d: "digits (nat 9007199254740993) = ''9007199254740993''" by (simp add: digits.simps)
  have a: "formatTime example_runtime 540431955284459584 = ''9007199254740994:04''"
    by (simp add: formatTime_eq divide_big t s two_digits_def)
  have b: "digits (nat \<lfloor>(540431955284459584::real) / 60\<rfloor>) @ '':''
       @ two_digits (seconds_part 540431955284459584) = ''9007199254740993:04''"
    unfolding f s d by (simp add: two_digits_def)
  from a1 b1 a b binary64_first binary64_big show ?thesis by simp
qed

subsection \<open>\<open>findHighlights\<close>\<close>

lemma example_chat_completion: "chat_completion (example_world x) q = x"
  by (simp add: example_world_def)

lemma example_findHighlights:
  "fst (findHighlights example_runtime (example_world (Inr content)) example_transcription)
     = (case extract_highlights example_runtime content of Inl e \<Rightarrow> Inr [] | Inr hs \<Rightarrow> Inr hs)"
  by (simp add: findHighlights_def Let_def segments_of_def example_transcription_def
      example_chat_completion)

lemma match_array_brackets: "match_array ''[]'' = Some ''[]''"
  by (simp add: match_array_def)

lemma match_array_empty: "match_array [] = None"
  by (simp add: match_array_def)

text \<open>
  The match of the pattern, as the regular expression gives it: it starts at the first
  \<open>[\<close> of the text and ends at its last \<open>]\<close>; and there is none only when the text
  has no \<open>[\<close> with a \<open>]\<close> behind it.
\<close>

lemma dropWhile_split:
  "dropWhile P xs = y # ys \<Longrightarrow> \<exists>pre. xs = pre @ y # ys \<and> (\<forall>x\<in>set pre. P x) \<and> \<not> P y"
  by (metis dropWhile_eq_Cons_conv set_takeWhileD takeWhile_dropWhile_id)

lemma match_array_Some:
  assumes "match_array s = Some m"
  shows "\<exists>a b c. s = a @ m @ c \<and> m = ''['' @ b @ '']''
           \<and> CHR ''['' \<notin> set a \<and> CHR '']'' \<notin> set c"
proof -
  let ?r = "dropWhile (\<lambda>c. c \<noteq> CHR ''['') s"
  have m: "m = rev (dropWhile (\<lambda>c. c \<noteq> CHR '']'') (rev ?r))" and ne: "m \<noteq> []"
    using assms by (auto simp: match_array_def Let_def split: if_splits)
  from ne m obtain y ys where d: "dropWhile (\<lambda>c. c \<noteq> CHR '']'') (rev ?r) = y # ys"
    by (cases "dropWhile (\<lambda>c. c \<noteq> CHR '']'') (rev ?r)") auto
  from dropWhile_split [OF d] obtain post where
    p: "rev ?r = post @ y # ys" "\<forall>x\<in>set post. x \<noteq> CHR '']''" "y = CHR '']''" by auto
  then have r: "?r = rev ys @ [CHR '']''] @ rev post"
    by (metis append.assoc append_Cons append_Nil rev.simps(2) rev_append rev_rev_ident)
  have mm: "m = rev ys @ [CHR '']'']" using m d p(3) by simp
  from r have rne: "?r \<noteq> []" by auto
  then obtain z zs where z: "?r = z # zs" by (cases ?r) auto
  from dropWhile_split [OF z] obtain a where
    a: "s = a @ z # zs" "\<forall>x\<in>set a. x \<noteq> CHR ''[''" "z = CHR ''[''" by auto
  have "rev ys \<noteq> []"
  proof
    assume "rev ys = []"
    with r z a(3) show False by simp
  qed
  then obtain b where b: "rev ys = CHR ''['' # b"
    using r z a(3) by (cases "rev ys") auto
  have "s = a @ m @ rev post" using a(1) z r mm by simp
  moreover have "m = ''['' @ b @ '']''" using mm b by simp
  moreover have "CHR ''['' \<notin> set a" using a(2) by auto
  moreover have "CHR '']'' \<notin> set (rev post)" using p(2) by auto
  ultimately show ?thesis by blast
qed

lemma match_array_None:
  assumes "match_array s = None"
  shows "\<not> (\<exists>a b c. s = a @ ''['' @ b @ '']'' @ c)"
proof
  assume "\<exists>a b c. s = a @ ''['' @ b @ '']'' @ c"
  then obtain a b c where s: "s = a @ ''['' @ b @ '']'' @ c" by blast
  let ?r = "dropWhile (\<lambda>c. c \<noteq> CHR ''['') s"
  have "CHR ''['' \<in> set s" using s by simp
  then have "?r \<noteq> []" by (auto simp: dropWhile_eq_Nil_conv)
  have "set (''['' @ b @ '']'' @ c) \<subseteq> set ?r"
  proof -
    have "?r = dropWhile (\<lambda>c. c \<noteq> CHR ''['') a @ ''['' @ b @ '']'' @ c
          \<or> ?r = dropWhile (\<lambda>c. c \<noteq> CHR ''['') (''['' @ b @ '']'' @ c)"
      unfolding s by (cases "\<forall>x\<in>set a. x \<noteq> CHR ''[''") (auto simp: dropWhile_append1 dropWhile_append2)
    then show ?thesis by auto
  qed
  then have "CHR '']'' \<in> set (rev ?r)" by auto
  then have "dropWhile (\<lambda>c. c \<noteq> CHR '']'') (rev ?r) \<noteq> []" by (auto simp: dropWhile_eq_Nil_conv)
  then show False using assms by (auto simp: match_array_def Let_def split: if_splits)
qed

lemma findHighlights_fulfilled: "\<exists>hs. fst (findHighlights rt w t) = Inr hs"
  by (simp add: findHighlights_def Let_def split: sum.splits)

lemma extract_none:
  "JSON_parse rt ''[]'' = Some (JArr []) \<Longrightarrow> reply_fails rt (Inr content) \<Longrightarrow>
   extract_highlights rt content = Inr [] \<or> (\<exists>e. extract_highlights rt content = Inl e)"
  by (auto simp: reply_fails_def extract_highlights_def Let_def match_array_brackets
      match_array_empty response_text_def split: option.splits sum.splits)

text \<open>
  Claim C1. When the chat-completion call fails, or the reply has no match of the
  bracket pattern, or \<open>JSON.parse\<close> throws on the match, \<open>findHighlights\<close> is
  fulfilled with the empty list; and whatever the world answers and whatever the
  transcript, its promise is fulfilled and never rejected, so that no error reaches the
  handler of the analyze request. (For the empty reply the code parses its default
  \<open>[]\<close>: the runtime is taken to parse that text to the empty array.)
\<close>

theorem findHighlights_absorbs_failures:
  assumes "JSON_parse rt ''[]'' = Some (JArr [])"
    and "reply_fails rt (chat_completion w (prompt rt (segments_of t)))"
  shows "fst (findHighlights rt w t) = Inr []
    \<and> (\<forall>w' t'. \<exists>hs. fst (findHighlights rt w' t') = Inr hs)"
proof -
  have "fst (findHighlights rt w t) = Inr []"
  proof (cases "chat_completion w (prompt rt (segments_of t))")
    case (Inl e)
    then show ?thesis by (simp add: findHighlights_def Let_def)
  next
    case (Inr content)
    with assms extract_none [of rt content]
    show ?thesis by (auto simp: findHighlights_def Let_def split: sum.splits)
  qed
  then show ?thesis using findHighlights_fulfilled by blast
qed

theorem findHighlights_absorbs_failures_witness:
  "reply_fails example_runtime
     (chat_completion (example_world (Inr (Some ''Sorry: [no clips found]'')))
        (prompt example_runtime (segments_of example_transcription)))
   \<and> findHighlights example_runtime (example_world (Inr (Some ''Sorry: [no clips found]'')))
         example_transcription
       = (Inr [], [Chat (prompt example_runtime (segments_of example_transcription))])"
proof -
  have h1: "JSON_parse example_runtime ''[]'' = Some (JArr [])" by code_simp
  have h2: "reply_fails example_runtime
     (chat_completion (example_world (Inr (Some ''Sorry: [no clips found]'')))
        (prompt example_runtime (segments_of example_transcription)))"
    unfolding example_chat_completion by code_simp
  have h3: "snd (findHighlights example_runtime
       (example_world (Inr (Some ''Sorry: [no clips found]''))) example_transcription)
     = [Chat (prompt example_runtime (segments_of example_transcription))]"
    by (simp add: findHighlights_def Let_def segments_of_def example_transcription_def)
  from findHighlights_absorbs_failures [OF h1 h2] h2 h3 show ?thesis
    by (simp add: prod_eq_iff)
qed

text \<open>
  Claim C3. For a transcript whose segments are missing or empty, \<open>findHighlights\<close>
  returns the empty list and sends no prompt: the list of its effects is empty.
\<close>

theorem findHighlights_empty_segments:
  assumes "segments t = None \<or> segments t = Some []"
  shows "findHighlights rt w t = (Inr [], [])"
  using assms by (auto simp: findHighlights_def segments_of_def)

theorem findHighlights_empty_segments_witness:
  "findHighlights example_runtime (example_world (Inr (Some two_item_reply)))
     \<lparr>full_text = '''', segments = Some []\<rparr> = (Inr [], [])"
  using findHighlights_empty_segments [of "\<lparr>full_text = '''', segments = Some []\<rparr>"]
  by simp

lemma by_score_highlights:
  "is_highlight a \<Longrightarrow> is_highlight b \<Longrightarrow> by_score rt a b = Inr (Some (score b - score a))"
  by (auto simp: is_highlight_def by_score_def score_def ToNumber_def get_prop_def
      split: json.splits option.splits)

lemma insert_by_insort:
  "is_highlight x \<Longrightarrow> \<forall>y\<in>set ys. is_highlight y \<Longrightarrow>
   insert_by (by_score rt) x ys = Inr (insort_key (\<lambda>v. - score v) x ys)"
  by (induction ys) (auto simp: by_score_highlights)

lemma Array_sort_highlights:
  "\<forall>v\<in>set arr. is_highlight v \<Longrightarrow>
   Array_sort (by_score rt) arr = Inr (sort_key (\<lambda>v. - score v) arr)"
proof (induction arr)
  case Nil
  then show ?case by simp
next
  case (Cons x xs)
  then have "\<forall>y\<in>set (sort_key (\<lambda>v. - score v) xs). is_highlight y" by simp
  with Cons show ?case by (simp add: insert_by_insort)
qed

lemma extract_highlights_sorted:
  assumes "reply_array rt w t = Some arr" and "\<forall>v\<in>set arr. is_highlight v"
    and "chat_completion w (prompt rt (segments_of t)) = Inr content"
  shows "extract_highlights rt content = Inr (sort_key (\<lambda>v. - score v) arr)"
  using assms
  by (auto simp: reply_array_def extract_highlights_def Let_def Array_sort_highlights
      split: option.splits json.splits)

lemma reply_array_answer:
  "reply_array rt w t = Some arr \<Longrightarrow>
   \<exists>content. chat_completion w (prompt rt (segments_of t)) = Inr content"
  by (auto simp: reply_array_def split: sum.splits)

text \<open>
  Claim C2. When the transcript has segments and the reply yields a JSON array of
  highlight objects (objects with a numeric \<open>score\<close>), \<open>findHighlights\<close> returns that
  array sorted by descending score, items of equal score in their order of the reply: the
  same items, each score at least the scores behind it. In particular, of two items the
  second of which has the higher score, the second comes first.
\<close>

theorem findHighlights_sorted_by_score:
  assumes "segments_of t \<noteq> []"
    and "reply_array rt w t = Some arr"
    and "\<forall>v\<in>set arr. is_highlight v"
  shows "\<exists>hs. fst (findHighlights rt w t) = Inr hs
           \<and> hs = sort_key (\<lambda>v. - score v) arr
           \<and> mset hs = mset arr
           \<and> sorted_wrt (\<lambda>a b. score b \<le> score a) hs
           \<and> (\<forall>a b. arr = [a, b] \<and> score a < score b \<longrightarrow> hs = [b, a])"
proof -
  let ?hs = "sort_key (\<lambda>v. - score v) arr"
  obtain content where c: "chat_completion w (prompt rt (segments_of t)) = Inr content"
    using reply_array_answer [OF assms(2)] by blast
  have "extract_highlights rt content = Inr ?hs"
    using extract_highlights_sorted [OF assms(2) assms(3) c] .
  with c assms(1) have 1: "fst (findHighlights rt w t) = Inr ?hs"
    by (simp add: findHighlights_def Let_def)
  have 2: "mset ?hs = mset arr" by simp
  have "sorted (map (\<lambda>v. - score v) ?hs)" by (rule sorted_sort_key)
  then have 3: "sorted_wrt (\<lambda>a b. score b \<le> score a) ?hs" by (simp add: sorted_map)
  have 4: "\<forall>a b. arr = [a, b] \<and> score a < score b \<longrightarrow> ?hs = [b, a]" by auto
  from 1 2 3 4 show ?thesis by blast
qed

theorem findHighlights_sorted_by_score_witness:
  "fst (findHighlights example_runtime (example_world (Inr (Some two_item_reply)))
          example_transcription)
     = Inr [highlight_B, highlight_A]"
proof -
  let ?w = "example_world (Inr (Some two_item_reply))"
  have h1: "segments_of example_transcription \<noteq> []" by code_simp
  have h2: "reply_array example_runtime ?w example_transcription = Some [highlight_A, highlight_B]"
    unfolding reply_array_def example_chat_completion by code_simp
  have h3: "\<forall>v\<in>set [highlight_A, highlight_B]. is_highlight v" by code_simp
  have h4: "score highlight_A < score highlight_B" by code_simp
  from findHighlights_sorted_by_score [OF h1 h2 h3] h4 show ?thesis by auto
qed


subsection \<open>The analyze request\<close>

lemma unlinkSync_removes: "unlinkSync fs p = Inr fs' \<Longrightarrow> \<not> existsSync fs' p"
  by (auto simp: unlinkSync_def existsSync_def split: option.splits if_splits)

lemma unlinkSync_fails:
  "unlinkSync fs p = Inl e \<Longrightarrow> existsSync fs p \<Longrightarrow> \<exists>n. nodes fs p = Some n \<and> \<not> unlink_ok n"
  by (auto simp: unlinkSync_def existsSync_def split: option.splits if_splits)

lemma analyze_catch_cases:
  "(\<exists>e' n. fst (analyze_catch w a e fs effs) = Rejected e' \<and> nodes fs a = Some n \<and> \<not> unlink_ok n)
   \<or> (fst (analyze_catch w a e fs effs) = Responded 500 (error_body (error_message w e))
      \<and> \<not> existsSync (fst (snd (analyze_catch w a e fs effs))) a)"
  by (auto simp: analyze_catch_def dest: unlinkSync_removes unlinkSync_fails split: sum.splits)

lemma analyze_video_cases:
  assumes "valid_analyze w body"
  shows "(\<exists>e n. fst (analyze_video rt w body fs) = Rejected e
          \<and> nodes (fs_after (exec w (audio_command rt (audio_file rt w) (field body ''url'')) fs))
               (audio_file rt w) = Some n
          \<and> \<not> unlink_ok n)
    \<or> (\<exists>msg. fst (analyze_video rt w body fs) = Responded 500 (error_body msg)
          \<and> \<not> existsSync (fst (snd (analyze_video rt w body fs))) (audio_file rt w))
    \<or> (\<exists>t hs fs1. transcribe w (audio_file rt w) fs1 = Inr t
          \<and> fst (findHighlights rt w t) = Inr hs
          \<and> fst (analyze_video rt w body fs) = Responded 200 (analyze_body t hs)
          \<and> \<not> existsSync (fst (snd (analyze_video rt w body fs))) (audio_file rt w))"
proof -
  define a where "a = audio_file rt w"
  define cmd where "cmd = audio_command rt a (field body ''url'')"
  define r where "r = exec w cmd fs"
  define fs1 where "fs1 = fs_after r"
  have v: "\<not> falsy (field body ''url'')" "\<not> (case GROQ_API_KEY w of None \<Rightarrow> True | Some k \<Rightarrow> k = [])"
    using assms by (auto simp: valid_analyze_def split: option.splits)
  have eq: "analyze_video rt w body fs =
     (case exec_error r of
                Some e \<Rightarrow> analyze_catch w a e fs1 [Exec cmd]
              | None \<Rightarrow>
                  (case transcribe w a fs1 of
                     Inl e \<Rightarrow> analyze_catch w a e fs1 [Exec cmd, Transcribe a]
                   | Inr t \<Rightarrow>
                       (case findHighlights rt w t of
                          (Inl e, chats) \<Rightarrow>
                            analyze_catch w a e fs1 ([Exec cmd, Transcribe a] @ chats)
                        | (Inr highlights, chats) \<Rightarrow>
                            (case unlinkSync fs1 a of
                               Inl e \<Rightarrow>
                                 analyze_catch w a e fs1 ([Exec cmd, Transcribe a] @ chats)
                             | Inr fs2 \<Rightarrow>
                                 (Responded 200 (analyze_body t highlights),
                                  fs2, [Exec cmd, Transcribe a] @ chats)))))"
    unfolding a_def cmd_def r_def fs1_def using v by (simp add: analyze_video_def Let_def)
  let ?X = "analyze_video rt w body fs"
  have main: "(\<exists>e n. fst ?X = Rejected e \<and> nodes fs1 a = Some n \<and> \<not> unlink_ok n)
    \<or> (\<exists>msg. fst ?X = Responded 500 (error_body msg) \<and> \<not> existsSync (fst (snd ?X)) a)
    \<or> (\<exists>t hs fs1. transcribe w a fs1 = Inr t \<and> fst (findHighlights rt w t) = Inr hs
          \<and> fst ?X = Responded 200 (analyze_body t hs) \<and> \<not> existsSync (fst (snd ?X)) a)"
  proof (cases "exec_error r")
    case (Some e)
    with eq analyze_catch_cases [of w a e fs1 "[Exec cmd]"] show ?thesis
      by auto
  next
    case None
    show ?thesis
    proof (cases "transcribe w a fs1")
      case (Inl e)
      with None eq analyze_catch_cases [of w a e fs1 "[Exec cmd, Transcribe a]"] show ?thesis
        by auto
    next
      case (Inr t)
      obtain res chats where fh: "findHighlights rt w t = (res, chats)" by (cases "findHighlights rt w t")
      show ?thesis
      proof (cases res)
        case (Inl e)
        with fh Inr None eq analyze_catch_cases [of w a e fs1 "[Exec cmd, Transcribe a] @ chats"]
        show ?thesis by auto
      next
        case hs: (Inr hs)
        show ?thesis
        proof (cases "unlinkSync fs1 a")
          case (Inl e)
          with hs fh Inr None eq analyze_catch_cases [of w a e fs1 "[Exec cmd, Transcribe a] @ chats"]
          show ?thesis by auto
        next
          case fs2: (Inr fs2)
          with hs fh Inr None eq have
            "analyze_video rt w body fs = (Responded 200 (analyze_body t hs), fs2, [Exec cmd, Transcribe a] @ chats)"
            by simp
          moreover have "\<not> existsSync fs2 a" using fs2 by (rule unlinkSync_removes)
          moreover have "fst (findHighlights rt w t) = Inr hs" using fh hs by simp
          ultimately show ?thesis using Inr by auto
        qed
      qed
    qed
  qed
  then show ?thesis unfolding fs1_def r_def cmd_def a_def .
qed

text \<open>
  Claim C7. For an analyze request that passes validation (a truthy \<open>url\<close> and a
  configured key): whenever the handler responds, with success or with an error, the
  temporary audio file of the request does not exist afterwards. The handler does respond
  unless \<open>unlink\<close> refuses the file the download left: only then is its promise
  rejected.
\<close>

theorem analyze_video_removes_audio:
  assumes "valid_analyze w body"
  shows "(\<forall>st b. fst (analyze_video rt w body fs) = Responded st b \<longrightarrow>
            \<not> existsSync (fst (snd (analyze_video rt w body fs))) (audio_file rt w))
    \<and> ((\<forall>n. nodes (fs_after (exec w (audio_command rt (audio_file rt w) (field body ''url'')) fs))
               (audio_file rt w) = Some n \<longrightarrow> unlink_ok n) \<longrightarrow>
         (\<exists>st b. fst (analyze_video rt w body fs) = Responded st b))"
  using analyze_video_cases [OF assms, of rt fs] by auto

lemma example_world_simps:
  "exec_error (exec (example_world x) c fs) = None"
  "fs_after (exec (example_world x) c fs)
     = fs\<lparr>nodes := (nodes fs)(''/app/temp/audio-1700000000000.mp3'' \<mapsto> example_node)\<rparr>"
  "transcribe (example_world x) p fs = Inr example_transcription"
  "chat_completion (example_world x) q = x"
  "GROQ_API_KEY (example_world x) = Some ''key''"
  by (simp_all add: example_world_def)

lemma digits_now: "digits 1700000000000 = ''1700000000000''"
  by (simp add: digits.simps)

lemma example_audio_file:
  "audio_file rt (example_world x) = ''/app/temp/audio-1700000000000.mp3''"
  by (simp add: audio_file_def TEMP_DIR_def path_join_def Number_toString_def example_world_def
      digits_now)

lemma example_highlights:
  "findHighlights example_runtime (example_world (Inr (Some two_item_reply))) example_transcription
     = (Inr [highlight_B, highlight_A], [Chat (prompt example_runtime (segments_of example_transcription))])"
proof -
  have "fst (findHighlights example_runtime (example_world (Inr (Some two_item_reply))) example_transcription)
     = Inr [highlight_B, highlight_A]" unfolding example_findHighlights by code_simp
  moreover have "snd (findHighlights example_runtime (example_world (Inr (Some two_item_reply))) example_transcription)
     = [Chat (prompt example_runtime (segments_of example_transcription))]"
    by (simp add: findHighlights_def Let_def segments_of_def example_transcription_def)
  ultimately show ?thesis by (simp add: prod_eq_iff)
qed

theorem analyze_video_removes_audio_witness:
  "valid_analyze (example_world (Inr (Some two_item_reply))) [(''url'', JStr ''https://example.com/v'')]
   \<and> fst (analyze_video example_runtime (example_world (Inr (Some two_item_reply)))
             [(''url'', JStr ''https://example.com/v'')] empty_fs)
       = Responded 200 (analyze_body example_transcription [highlight_B, highlight_A])
   \<and> \<not> existsSync (fst (snd (analyze_video example_runtime (example_world (Inr (Some two_item_reply)))
             [(''url'', JStr ''https://example.com/v'')] empty_fs)))
          ''/app/temp/audio-1700000000000.mp3''"
proof -
  let ?w = "example_world (Inr (Some two_item_reply))"
  let ?body = "[(''url'', JStr ''https://example.com/v'')]"
  have h: "valid_analyze ?w ?body"
    by (simp add: valid_analyze_def field_def example_world_simps)
  have r: "fst (analyze_video example_runtime ?w ?body empty_fs)
       = Responded 200 (analyze_body example_transcription [highlight_B, highlight_A])"
    by (simp add: analyze_video_def Let_def field_def example_world_simps example_audio_file
        example_highlights unlinkSync_def example_node_def)
  from analyze_video_removes_audio [OF h, of example_runtime empty_fs] r h show ?thesis
    by (simp add: example_audio_file)
qed

lemma insert_by_mset:
  "insert_by cmp x ys = Inr zs \<Longrightarrow> mset zs = add_mset x (mset ys)"
  by (induction ys arbitrary: zs) (auto split: sum.splits if_splits)

lemma Array_sort_mset: "Array_sort cmp xs = Inr ys \<Longrightarrow> mset ys = mset xs"
  by (induction xs arbitrary: ys) (auto split: sum.splits dest: insert_by_mset)

lemma extract_highlights_items:
  assumes "extract_highlights rt content = Inr hs"
  shows "hs = [] \<or> (\<exists>m arr. match_array (response_text content) = Some m
            \<and> JSON_parse rt m = Some (JArr arr) \<and> mset hs = mset arr)"
proof (cases "match_array (response_text content)")
  case None
  with assms show ?thesis by (simp add: extract_highlights_def)
next
  case (Some m)
  show ?thesis
  proof (cases "JSON_parse rt m")
    case None
    with Some assms show ?thesis by (simp add: extract_highlights_def)
  next
    case (Some v)
    with \<open>match_array (response_text content) = Some m\<close> assms
    show ?thesis
      by (cases v) (auto simp: extract_highlights_def dest: Array_sort_mset)
  qed
qed

lemma findHighlights_items:
  assumes "fst (findHighlights rt w t) = Inr hs"
  shows "hs = [] \<or> (\<exists>arr. reply_array rt w t = Some arr \<and> mset hs = mset arr)"
proof (cases "segments_of t = []")
  case True
  with assms show ?thesis by (simp add: findHighlights_def)
next
  case False
  show ?thesis
  proof (cases "chat_completion w (prompt rt (segments_of t))")
    case (Inl e)
    with False assms show ?thesis by (simp add: findHighlights_def Let_def)
  next
    case (Inr content)
    show ?thesis
    proof (cases "extract_highlights rt content")
      case (Inl e)
      with Inr False assms show ?thesis by (simp add: findHighlights_def Let_def)
    next
      case r: (Inr hs')
      with Inr False assms have "hs' = hs" by (simp add: findHighlights_def Let_def)
      with r extract_highlights_items [of rt content hs] Inr show ?thesis
        by (auto simp: reply_array_def)
    qed
  qed
qed

lemma highlights_of_error_body: "response_highlights (Responded st (error_body msg)) = None"
  by (simp add: response_highlights_def error_body_def obj_def field_def)

lemma highlights_of_analyze_body: "response_highlights (Responded st (analyze_body t hs)) = Some hs"
  by (cases "segments t") (simp_all add: response_highlights_def analyze_body_def obj_def field_def)

lemma highlights_of_rejected: "response_highlights (Rejected e) = None"
  by (simp add: response_highlights_def)

lemma analyze_video_invalid:
  "\<not> valid_analyze w body \<Longrightarrow>
   \<exists>st msg. analyze_video rt w body fs = (Responded st (error_body msg), fs, [])"
  by (auto simp: valid_analyze_def analyze_video_def Let_def split: option.splits)

text \<open>
  Claim C8, as amended. The highlights of a response are none, or all the items of the
  array parsed from the chat reply, reordered: as many as that array has, with no limit
  of 5 in the code. The example that follows has six of them.
\<close>

theorem response_highlights_are_reply_items:
  assumes "response_highlights (fst (analyze_video rt w body fs)) = Some hs"
  shows "hs = [] \<or> (\<exists>t fs1 arr. transcribe w (audio_file rt w) fs1 = Inr t
            \<and> reply_array rt w t = Some arr \<and> mset hs = mset arr \<and> length hs = length arr)"
proof (cases "valid_analyze w body")
  case False
  from analyze_video_invalid [OF False, of rt fs] assms show ?thesis
    by (auto simp: highlights_of_error_body)
next
  case True
  from analyze_video_cases [OF True, of rt fs] assms
  obtain t fs1 where t: "transcribe w (audio_file rt w) fs1 = Inr t"
    and h: "fst (findHighlights rt w t) = Inr hs"
    by (auto simp: highlights_of_error_body highlights_of_analyze_body highlights_of_rejected)
  from findHighlights_items [OF h] show ?thesis
  proof
    assume "hs = []" then show ?thesis by simp
  next
    assume "\<exists>arr. reply_array rt w t = Some arr \<and> mset hs = mset arr"
    then obtain arr where a: "reply_array rt w t = Some arr" "mset hs = mset arr" by blast
    from a(2) have "length hs = length arr" by (rule mset_eq_length)
    with t a show ?thesis by blast
  qed
qed

lemma example_analyze:
  assumes "findHighlights example_runtime (example_world x) example_transcription = (Inr hs, chats)"
  shows "fst (analyze_video example_runtime (example_world x)
             [(''url'', JStr ''https://example.com/v'')] empty_fs)
       = Responded 200 (analyze_body example_transcription hs)"
  using assms
  by (simp add: analyze_video_def Let_def field_def example_world_simps example_audio_file
        unlinkSync_def example_node_def)

theorem six_highlights_in_response:
  "map_option length (response_highlights (fst (analyze_video example_runtime
      (example_world (Inr (Some six_item_reply))) [(''url'', JStr ''https://example.com/v'')] empty_fs)))
   = Some 6"
proof -
  have "map_option length (case fst (findHighlights example_runtime (example_world (Inr (Some six_item_reply)))
          example_transcription) of Inl e \<Rightarrow> None | Inr hs \<Rightarrow> Some hs) = Some 6"
    unfolding example_findHighlights by code_simp
  then obtain hs where "fst (findHighlights example_runtime (example_world (Inr (Some six_item_reply)))
          example_transcription) = Inr hs" and "length hs = 6"
    by (auto split: sum.splits)
  then show ?thesis
    using example_analyze [of "Inr (Some six_item_reply)" hs
        "snd (findHighlights example_runtime (example_world (Inr (Some six_item_reply))) example_transcription)"]
    by (simp add: highlights_of_analyze_body prod_eq_iff)
qed

theorem response_highlights_are_reply_items_witness:
  "response_highlights (fst (analyze_video example_runtime (example_world (Inr (Some two_item_reply)))
      [(''url'', JStr ''https://example.com/v'')] empty_fs)) = Some [highlight_B, highlight_A]
   \<and> (\<exists>t fs1 arr.
         transcribe (example_world (Inr (Some two_item_reply)))
           (audio_file example_runtime (example_world (Inr (Some two_item_reply)))) fs1 = Inr t
         \<and> reply_array example_runtime (example_world (Inr (Some two_item_reply))) t = Some arr
         \<and> mset [highlight_B, highlight_A] = mset arr \<and> length arr = 2)"
proof -
  have r: "response_highlights (fst (analyze_video example_runtime (example_world (Inr (Some two_item_reply)))
      [(''url'', JStr ''https://example.com/v'')] empty_fs)) = Some [highlight_B, highlight_A]"
    using example_analyze [OF example_highlights] by (simp add: highlights_of_analyze_body)
  from response_highlights_are_reply_items [OF r] r show ?thesis by auto
qed

subsection \<open>The metadata request\<close>

lemma video_info_exit_nonzero:
  assumes "\<not> falsy (field body ''url'')"
    and "exec_error (exec w (info_command rt (field body ''url'')) fs) = Some e"
  shows "video_info rt w body fs =
     (Responded 500 (error_body ''Video nicht gefunden''), [Exec (info_command rt (field body ''url''))])"
  using assms by (simp add: video_info_def Let_def)

lemma video_info_unparsable:
  assumes "\<not> falsy (field body ''url'')"
    and "exec_error (exec w (info_command rt (field body ''url'')) fs) = None"
    and "JSON_parse rt (stdout (exec w (info_command rt (field body ''url'')) fs)) = None"
  shows "video_info rt w body fs = (Uncaught SyntaxError, [Exec (info_command rt (field body ''url''))])"
  using assms by (simp add: video_info_def Let_def)

text \<open>
  Claim C5. A non-zero exit of the download utility is answered with status 500 and
  \<open>Video nicht gefunden\<close> (\<open>video_info_exit_nonzero\<close>). Output that is not JSON is
  not: \<open>JSON.parse\<close> throws in the callback of \<open>exec\<close>, outside the handler's
  \<open>try\<close> block, and no response is sent (\<open>video_info_unparsable\<close>). The utility
  exits with status 0 and prints one JSON object per line for a playlist; the evaluation
  of the handler on such output follows.
\<close>

theorem video_info_playlist_uncaught:
  "fst (video_info example_runtime playlist_world [(''url'', JStr ''https://example.com/playlist'')] empty_fs)
     = Uncaught SyntaxError"
proof -
  have p: "parse_text ''{\"id\":\"a\"}\<newline>{\"id\":\"b\"}\<newline>'' = None" by code_simp
  show ?thesis
    by (simp add: video_info_def Let_def field_def playlist_world_def example_world_def
        example_runtime_def p)
qed

subsection \<open>The clip request\<close>

lemma error_body_error: "member_of (error_body msg) ''error'' = Some (JStr msg)"
  by (simp add: error_body_def obj_def field_def)

lemma create_clip_invalid:
  assumes "falsy (field body ''url'') \<or> field body ''startTime'' = None \<or> falsy (field body ''duration'')"
  shows "create_clip rt w body fs = (Responded 400 (error_body ''Parameter fehlen''), fs, [])"
  using assms by (auto simp: create_clip_def Let_def)

lemma create_clip_valid:
  assumes "\<not> (falsy (field body ''url'') \<or> field body ''startTime'' = None \<or> falsy (field body ''duration''))"
  shows "(\<exists>e. create_clip rt w body fs = (Rejected e, fs, []) \<and> safeName (field body ''clipName'') = Inl e)
    \<or> (\<exists>name out. safeName (field body ''clipName'') = Inr name
          \<and> create_clip rt w body fs =
               (out,
                fs_after (exec w (clip_command rt (field body ''url'') (field body ''startTime'')
                   (field body ''duration'') (path_join (DOWNLOADS_DIR w) (outputFile rt w name))) fs),
                [Exec (clip_command rt (field body ''url'') (field body ''startTime'')
                   (field body ''duration'') (path_join (DOWNLOADS_DIR w) (outputFile rt w name)))])
          \<and> (out = Responded 500 (error_body ''Clip-Erstellung fehlgeschlagen'')
              \<or> (\<exists>stats. out = Responded 200 (clip_body (outputFile rt w name) stats))))"
proof (cases "safeName (field body ''clipName'')")
  case (Inl e)
  with assms show ?thesis by (simp add: create_clip_def Let_def)
next
  case (Inr name)
  with assms show ?thesis
    by (auto simp: create_clip_def Let_def split: option.splits sum.splits)
qed

text \<open>
  Claim C6. The create-clip handler answers with status 400 and an \<open>error\<close> field,
  running no command, exactly when \<open>url\<close> is missing or otherwise falsy (the test is
  \<open>!url\<close>), \<open>startTime\<close> is undefined, or \<open>duration\<close> is falsy. A
  \<open>startTime\<close> of 0 passes the validation; a \<open>duration\<close> of 0 does not.
\<close>

theorem create_clip_validation:
  "(((\<exists>b. fst (create_clip rt w body fs) = Responded 400 b \<and> member_of b ''error'' \<noteq> None)
       \<and> snd (snd (create_clip rt w body fs)) = [])
     = (falsy (field body ''url'') \<or> field body ''startTime'' = None \<or> falsy (field body ''duration'')))
   \<and> (field body ''startTime'' = Some (JNum 0) \<and> \<not> falsy (field body ''url'')
        \<and> \<not> falsy (field body ''duration'')
      \<longrightarrow> (\<forall>b. fst (create_clip rt w body fs) \<noteq> Responded 400 b))
   \<and> (field body ''duration'' = Some (JNum 0)
      \<longrightarrow> create_clip rt w body fs = (Responded 400 (error_body ''Parameter fehlen''), fs, []))"
proof -
  let ?invalid = "falsy (field body ''url'') \<or> field body ''startTime'' = None \<or> falsy (field body ''duration'')"
  have a: "?invalid \<Longrightarrow> create_clip rt w body fs = (Responded 400 (error_body ''Parameter fehlen''), fs, [])"
    by (rule create_clip_invalid)
  have b: "\<not> ?invalid \<Longrightarrow> (\<forall>b. fst (create_clip rt w body fs) \<noteq> Responded 400 b)"
    using create_clip_valid [of body rt w fs] by auto
  show ?thesis
  proof (cases ?invalid)
    case True
    with a show ?thesis by (auto simp: error_body_error)
  next
    case False
    with b show ?thesis by auto
  qed
qed

theorem create_clip_validation_witness:
  "(\<exists>b. fst (create_clip example_runtime clip_world
             [(''url'', JStr ''x''), (''startTime'', JNum 0), (''duration'', JNum 0)] empty_fs)
          = Responded 400 b \<and> member_of b ''error'' \<noteq> None)
   \<and> snd (snd (create_clip example_runtime clip_world
             [(''url'', JStr ''x''), (''startTime'', JNum 0), (''duration'', JNum 0)] empty_fs)) = []"
proof -
  have "falsy (field [(''url'', JStr ''x''), (''startTime'', JNum 0), (''duration'', JNum 0)] ''duration'')"
    by (simp add: field_def)
  with create_clip_validation [of example_runtime clip_world
      "[(''url'', JStr ''x''), (''startTime'', JNum 0), (''duration'', JNum 0)]" empty_fs]
  show ?thesis by blast
qed

lemma sanitize_chars: "set (sanitize s) \<subseteq> set name_chars"
proof -
  have u: "CHR ''_'' \<in> set name_chars" by (simp add: name_chars_def)
  have "set (map (\<lambda>c. if c \<in> set name_chars then c else CHR ''_'') s) \<subseteq> set name_chars"
    using u by auto
  then show ?thesis unfolding sanitize_def using set_take_subset by fast
qed

lemma sanitize_length: "length (sanitize s) \<le> 50"
  by (simp add: sanitize_def)

lemma sanitize_clip: "sanitize ''clip'' = ''clip''"
  by (simp add: sanitize_def name_chars_def)

lemma safeName_typed:
  assumes "falsy c \<or> (\<exists>s. c = Some (JStr s))"
  shows "safeName c = Inr (sanitize (case c of Some (JStr s) \<Rightarrow> if s = [] then ''clip'' else s | _ \<Rightarrow> ''clip''))"
  using assms by (cases c rule: falsy.cases) (auto simp: safeName_def)

lemma clip_body_filename: "member_of (clip_body file stats) ''filename'' = Some (JStr file)"
  by (simp add: clip_body_def obj_def field_def)

text \<open>
  A \<open>clipName\<close> that is truthy and not a string (a number, \<open>true\<close>, an array, an
  object) has no method \<open>replace\<close>: the call throws a TypeError before the \<open>try\<close>
  block is entered, no name is built, no command is run and no response is sent.
\<close>

lemma create_clip_name_not_string:
  assumes "\<not> (falsy (field body ''url'') \<or> field body ''startTime'' = None \<or> falsy (field body ''duration''))"
    and "\<not> falsy (field body ''clipName'')" and "\<And>s. field body ''clipName'' \<noteq> Some (JStr s)"
  shows "create_clip rt w body fs = (Rejected TypeError, fs, [])"
proof -
  have "safeName (field body ''clipName'') = Inl TypeError"
    using assms(2,3) by (auto simp: safeName_def split: option.splits json.splits)
  then show ?thesis using assms(1) by (simp add: create_clip_def Let_def)
qed

text \<open>
  Claim C10, as amended. For a request that passes validation and whose \<open>clipName\<close>
  is falsy or a string: the base name is the first 50 characters of the name (\<open>clip\<close>
  for a falsy one, the empty string included) with an underscore for every character
  outside \<open>[a-zA-Z0-9-_]\<close>; it has only characters of that set and at most 50 of
  them; the output file, in the command that is run and in the response, is the base
  name, a hyphen, the timestamp and \<open>.mp4\<close>. The example after the next is a request
  that passes validation with the number 5 as \<open>clipName\<close>: no base name is built.
\<close>

theorem create_clip_output_name:
  assumes "\<not> (falsy (field body ''url'') \<or> field body ''startTime'' = None \<or> falsy (field body ''duration''))"
    and "falsy (field body ''clipName'') \<or> (\<exists>s. field body ''clipName'' = Some (JStr s))"
  shows "\<exists>name. safeName (field body ''clipName'') = Inr name
      \<and> name = take 50 (map (\<lambda>c. if c \<in> set name_chars then c else CHR ''_'')
                 (case field body ''clipName'' of
                    Some (JStr s) \<Rightarrow> if s = [] then ''clip'' else s | _ \<Rightarrow> ''clip''))
      \<and> set name \<subseteq> set name_chars
      \<and> length name \<le> 50
      \<and> (falsy (field body ''clipName'') \<longrightarrow> name = ''clip'')
      \<and> snd (snd (create_clip rt w body fs)) =
          [Exec (clip_command rt (field body ''url'') (field body ''startTime'') (field body ''duration'')
             (path_join (DOWNLOADS_DIR w) (name @ ''-'' @ Number_toString rt (Date_now w) @ ''.mp4'')))]
      \<and> (\<forall>b. fst (create_clip rt w body fs) = Responded 200 b \<longrightarrow>
             member_of b ''filename'' = Some (JStr (name @ ''-'' @ Number_toString rt (Date_now w) @ ''.mp4'')))"
proof -
  let ?c = "field body ''clipName''"
  let ?base = "case ?c of Some (JStr s) \<Rightarrow> if s = [] then ''clip'' else s | _ \<Rightarrow> ''clip''"
  have n: "safeName ?c = Inr (sanitize ?base)" using assms(2) by (rule safeName_typed)
  have f: "falsy ?c \<longrightarrow> sanitize ?base = ''clip''"
    by (cases ?c rule: falsy.cases) (auto simp: sanitize_clip)
  from create_clip_valid [OF assms(1), of rt w fs] n
  have e: "snd (snd (create_clip rt w body fs)) =
          [Exec (clip_command rt (field body ''url'') (field body ''startTime'') (field body ''duration'')
             (path_join (DOWNLOADS_DIR w) (outputFile rt w (sanitize ?base))))]"
    and r: "\<forall>b. fst (create_clip rt w body fs) = Responded 200 b \<longrightarrow>
             member_of b ''filename'' = Some (JStr (outputFile rt w (sanitize ?base)))"
    by (auto simp: clip_body_filename error_body_def)
  from n f e r sanitize_chars [of ?base] sanitize_length [of ?base]
  show ?thesis by (simp add: outputFile_def sanitize_def)
qed

theorem create_clip_output_name_witness:
  "safeName (field clip_request ''clipName'') = Inr ''My_Clip_''
   \<and> snd (snd (create_clip example_runtime clip_world clip_request empty_fs)) =
       [Exec (clip_command example_runtime (field clip_request ''url'') (field clip_request ''startTime'')
          (field clip_request ''duration'') ''/app/downloads/My_Clip_-1700000000000.mp4'')]
   \<and> fst (create_clip example_runtime clip_world clip_request empty_fs)
       = Responded 200 (clip_body ''My_Clip_-1700000000000.mp4'' example_node)"
proof -
  have h1: "\<not> (falsy (field clip_request ''url'') \<or> field clip_request ''startTime'' = None
              \<or> falsy (field clip_request ''duration''))"
    by (simp add: clip_request_def field_def)
  have h2: "falsy (field clip_request ''clipName'') \<or> (\<exists>s. field clip_request ''clipName'' = Some (JStr s))"
    by (simp add: clip_request_def field_def)
  have c: "field clip_request ''clipName'' = Some (JStr ''My Clip!'')"
    by (simp add: clip_request_def field_def)
  have s: "take 50 (map (\<lambda>c. if c \<in> set name_chars then c else CHR ''_'') ''My Clip!'') = ''My_Clip_''"
    by (simp add: name_chars_def)
  have t: "Number_toString example_runtime (Date_now clip_world) = ''1700000000000''"
    by (simp add: Number_toString_def clip_world_def example_world_def digits_now)
  have d: "DOWNLOADS_DIR clip_world = ''/app/downloads''"
    by (simp add: DOWNLOADS_DIR_def path_join_def clip_world_def example_world_def)
  have b: "(case field clip_request ''clipName'' of
              Some (JStr s) \<Rightarrow> if s = [] then ''clip'' else s | _ \<Rightarrow> ''clip'') = ''My Clip!''"
    by (simp add: c)
  from create_clip_output_name [OF h1 h2, of example_runtime clip_world empty_fs]
  obtain name where n0: "safeName (field clip_request ''clipName'') = Inr name"
    and n1: "name = take 50 (map (\<lambda>c. if c \<in> set name_chars then c else CHR ''_'')
                 (case field clip_request ''clipName'' of
                    Some (JStr s) \<Rightarrow> if s = [] then ''clip'' else s | _ \<Rightarrow> ''clip''))"
    and e0: "snd (snd (create_clip example_runtime clip_world clip_request empty_fs)) =
          [Exec (clip_command example_runtime (field clip_request ''url'') (field clip_request ''startTime'')
             (field clip_request ''duration'')
             (path_join (DOWNLOADS_DIR clip_world)
                (name @ ''-'' @ Number_toString example_runtime (Date_now clip_world) @ ''.mp4'')))]"
    by blast
  have name: "name = ''My_Clip_''" using n1 unfolding b s .
  have n: "safeName (field clip_request ''clipName'') = Inr ''My_Clip_''" using n0 name by simp
  have e: "snd (snd (create_clip example_runtime clip_world clip_request empty_fs)) =
       [Exec (clip_command example_runtime (field clip_request ''url'') (field clip_request ''startTime'')
          (field clip_request ''duration'') ''/app/downloads/My_Clip_-1700000000000.mp4'')]"
    using e0 by (simp add: name t d path_join_def)
  have x: "exec clip_world = (\<lambda>cmd fs. \<lparr>exec_error = None, stdout = [],
        fs_after = fs\<lparr>nodes := (nodes fs)(''/app/downloads/My_Clip_-1700000000000.mp4'' \<mapsto> example_node)\<rparr>\<rparr>)"
    by (simp add: clip_world_def)
  have "fst (create_clip example_runtime clip_world clip_request empty_fs)
       = Responded 200 (clip_body ''My_Clip_-1700000000000.mp4'' example_node)"
    using h1 n by (simp add: create_clip_def Let_def outputFile_def t d path_join_def x
        existsSync_def statSync_def)
  with n e show ?thesis by simp
qed

theorem create_clip_numeric_name:
  "\<not> (falsy (field numeric_name_request ''url'') \<or> field numeric_name_request ''startTime'' = None
       \<or> falsy (field numeric_name_request ''duration''))
   \<and> field numeric_name_request ''clipName'' = Some (JNum 5)
   \<and> safeName (field numeric_name_request ''clipName'') = Inl TypeError
   \<and> create_clip example_runtime clip_world numeric_name_request empty_fs
       = (Rejected TypeError, empty_fs, [])"
  by (simp add: numeric_name_request_def field_def safeName_def create_clip_def Let_def)

subsection \<open>The sweep\<close>

lemma sweep_entry_nodes:
  "nodes (sweep_entry c dir n fs) p =
     (if p = path_join dir n \<and> removable_old c (nodes fs p) then None else nodes fs p)"
  by (auto simp: sweep_entry_def statSync_def unlinkSync_def removable_old_def Let_def
      split: option.splits)

lemma sweep_entry_listing: "listing (sweep_entry c dir n fs) = listing fs"
  by (auto simp: sweep_entry_def statSync_def unlinkSync_def Let_def split: option.splits)

lemma fold_sweep_listing: "listing (fold (sweep_entry c dir) ns fs) = listing fs"
  by (induction ns arbitrary: fs) (simp_all add: sweep_entry_listing)

lemma fold_sweep_nodes:
  "nodes (fold (sweep_entry c dir) ns fs) p =
     (if (\<exists>n\<in>set ns. p = path_join dir n) \<and> removable_old c (nodes fs p) then None else nodes fs p)"
proof (induction ns arbitrary: fs)
  case Nil
  then show ?case by simp
next
  case (Cons n ns)
  show ?case
  proof (cases "p = path_join dir n \<and> removable_old c (nodes fs p)")
    case True
    then have "nodes (sweep_entry c dir n fs) p = None" using sweep_entry_nodes [of c dir n fs p] by auto
    with True Cons.IH [of "sweep_entry c dir n fs"] show ?thesis
      by (auto simp: removable_old_def)
  next
    case False
    then have "nodes (sweep_entry c dir n fs) p = nodes fs p" using sweep_entry_nodes [of c dir n fs p] by auto
    with False Cons.IH [of "sweep_entry c dir n fs"] show ?thesis by auto
  qed
qed

lemma sweep_dir_directory:
  assumes "listing fs dir = Some ns" and "existsSync fs dir"
  shows "sweep_dir c dir fs = (None, fold (sweep_entry c dir) ns fs)"
  using assms by (simp add: sweep_dir_def readdirSync_def)

lemma temp_not_in_downloads: "TEMP_DIR w \<noteq> path_join (DOWNLOADS_DIR w) n"
  by (simp add: TEMP_DIR_def DOWNLOADS_DIR_def path_join_def)

lemma sweep_nodes:
  assumes "listing fs (DOWNLOADS_DIR w) = Some dl" and "listing fs (TEMP_DIR w) = Some tmp"
    and "existsSync fs (DOWNLOADS_DIR w)" and "existsSync fs (TEMP_DIR w)"
  shows "fst (sweep w now fs) = None"
    and "nodes (snd (sweep w now fs)) p =
      (if ((\<exists>n\<in>set dl. p = path_join (DOWNLOADS_DIR w) n) \<or> (\<exists>n\<in>set tmp. p = path_join (TEMP_DIR w) n))
          \<and> removable_old (real_of_int (now - 3600000)) (nodes fs p)
       then None else nodes fs p)"
proof -
  define c where "c = real_of_int (now - 3600000)"
  let ?fs1 = "fold (sweep_entry c (DOWNLOADS_DIR w)) dl fs"
  have 1: "sweep_dir c (DOWNLOADS_DIR w) fs = (None, ?fs1)"
    using assms(1,3) by (rule sweep_dir_directory)
  have l: "listing ?fs1 (TEMP_DIR w) = Some tmp" using assms(2) by (simp add: fold_sweep_listing)
  have "nodes ?fs1 (TEMP_DIR w) = nodes fs (TEMP_DIR w)"
    by (auto simp: fold_sweep_nodes temp_not_in_downloads)
  then have e: "existsSync ?fs1 (TEMP_DIR w)" using assms(4) by (simp add: existsSync_def)
  have 2: "sweep_dir c (TEMP_DIR w) ?fs1 = (None, fold (sweep_entry c (TEMP_DIR w)) tmp ?fs1)"
    using l e by (rule sweep_dir_directory)
  have s: "sweep w now fs = (None, fold (sweep_entry c (TEMP_DIR w)) tmp ?fs1)"
    unfolding sweep_def Let_def c_def [symmetric] by (simp add: 1 2)
  show "fst (sweep w now fs) = None" by (simp add: s)
  show "nodes (snd (sweep w now fs)) p =
      (if ((\<exists>n\<in>set dl. p = path_join (DOWNLOADS_DIR w) n) \<or> (\<exists>n\<in>set tmp. p = path_join (TEMP_DIR w) n))
          \<and> removable_old (real_of_int (now - 3600000)) (nodes fs p)
       then None else nodes fs p)"
    unfolding c_def [symmetric] by (auto simp: s fold_sweep_nodes removable_old_def)
qed

text \<open>
  Claim C9, as amended. Let both working directories exist and be directories. After one
  run of the sweep, an entry that either directory lists is absent when it was last
  modified before \<open>now - 3600000\<close> and \<open>unlink\<close> removes it, and is unchanged when
  it is not older than that or \<open>unlink\<close> refuses it; the run raises no exception,
  whatever the other entries are (names that no longer exist, files that \<open>unlink\<close>
  refuses). The example after it has an old file that stays: \<open>unlink\<close> refuses it and
  the error is swallowed.
\<close>

theorem sweep_removes_old_entries:
  assumes "listing fs (DOWNLOADS_DIR w) = Some dl" and "listing fs (TEMP_DIR w) = Some tmp"
    and "existsSync fs (DOWNLOADS_DIR w)" and "existsSync fs (TEMP_DIR w)"
    and "(dir = DOWNLOADS_DIR w \<and> name \<in> set dl) \<or> (dir = TEMP_DIR w \<and> name \<in> set tmp)"
    and "nodes fs (path_join dir name) = Some nd"
  shows "fst (sweep w now fs) = None
    \<and> nodes (snd (sweep w now fs)) (path_join dir name) =
        (if mtimeMs nd < real_of_int (now - 3600000) \<and> unlink_ok nd then None else Some nd)"
  using sweep_nodes [OF assms(1-4), of now] assms(5,6)
  by (auto simp: removable_old_def)

lemma example_dirs:
  "DOWNLOADS_DIR (example_world x) = ''/app/downloads''"
  "TEMP_DIR (example_world x) = ''/app/temp''"
  by (simp_all add: DOWNLOADS_DIR_def TEMP_DIR_def path_join_def example_world_def)

lemma sweep_fs_dirs:
  "listing sweep_fs ''/app/downloads'' = Some [''gone.mp4'', ''busy.mp4'', ''old.mp4'', ''new.mp4'']"
  "listing sweep_fs ''/app/temp'' = Some []"
  "existsSync sweep_fs ''/app/downloads''"
  "existsSync sweep_fs ''/app/temp''"
  by (simp_all add: sweep_fs_def existsSync_def)

lemma sweep_fs_nodes:
  "nodes sweep_fs ''/app/downloads/gone.mp4'' = None"
  "nodes sweep_fs ''/app/downloads/busy.mp4'' = Some busy_node"
  "nodes sweep_fs ''/app/downloads/old.mp4'' = Some old_node"
  "nodes sweep_fs ''/app/downloads/new.mp4'' = Some recent_node"
  by (simp_all add: sweep_fs_def)

theorem sweep_removes_old_entries_witness:
  "fst (sweep (example_world (Inr None)) 1700000000000 sweep_fs) = None
   \<and> nodes (snd (sweep (example_world (Inr None)) 1700000000000 sweep_fs)) ''/app/downloads/old.mp4'' = None
   \<and> nodes (snd (sweep (example_world (Inr None)) 1700000000000 sweep_fs)) ''/app/downloads/new.mp4''
       = Some recent_node"
proof -
  let ?w = "example_world (Inr None)"
  have d: "listing sweep_fs (DOWNLOADS_DIR ?w) = Some [''gone.mp4'', ''busy.mp4'', ''old.mp4'', ''new.mp4'']"
    and t: "listing sweep_fs (TEMP_DIR ?w) = Some []"
    and ed: "existsSync sweep_fs (DOWNLOADS_DIR ?w)"
    and et: "existsSync sweep_fs (TEMP_DIR ?w)"
    by (simp_all add: example_dirs sweep_fs_dirs)
  have old: "(''/app/downloads'' = DOWNLOADS_DIR ?w \<and> ''old.mp4'' \<in> set [''gone.mp4'', ''busy.mp4'', ''old.mp4'', ''new.mp4''])
       \<or> (''/app/downloads'' = TEMP_DIR ?w \<and> ''old.mp4'' \<in> set [])"
    and new: "(''/app/downloads'' = DOWNLOADS_DIR ?w \<and> ''new.mp4'' \<in> set [''gone.mp4'', ''busy.mp4'', ''old.mp4'', ''new.mp4''])
       \<or> (''/app/downloads'' = TEMP_DIR ?w \<and> ''new.mp4'' \<in> set [])"
    by (simp_all add: example_dirs)
  have no: "nodes sweep_fs (path_join ''/app/downloads'' ''old.mp4'') = Some old_node"
    and nn: "nodes sweep_fs (path_join ''/app/downloads'' ''new.mp4'') = Some recent_node"
    by (simp_all add: path_join_def sweep_fs_nodes)
  from sweep_removes_old_entries [OF d t ed et old no, of 1700000000000]
    sweep_removes_old_entries [OF d t ed et new nn, of 1700000000000]
  show ?thesis by (simp add: path_join_def old_node_def recent_node_def)
qed

theorem sweep_leaves_refused_file:
  "mtimeMs busy_node < real_of_int (1700000000000 - 3600000)
   \<and> nodes (snd (sweep (example_world (Inr None)) 1700000000000 sweep_fs)) ''/app/downloads/busy.mp4''
       = Some busy_node"
proof -
  let ?w = "example_world (Inr None)"
  have d: "listing sweep_fs (DOWNLOADS_DIR ?w) = Some [''gone.mp4'', ''busy.mp4'', ''old.mp4'', ''new.mp4'']"
    and t: "listing sweep_fs (TEMP_DIR ?w) = Some []"
    and ed: "existsSync sweep_fs (DOWNLOADS_DIR ?w)"
    and et: "existsSync sweep_fs (TEMP_DIR ?w)"
    by (simp_all add: example_dirs sweep_fs_dirs)
  from sweep_nodes(2) [OF d t ed et, of 1700000000000 "''/app/downloads/busy.mp4''"]
  show ?thesis by (simp add: sweep_fs_nodes removable_old_def busy_node_def)
qed

end
